theory Spec2Isabelle
  imports Main "HOL-Library.Multiset" "HOL-Library.Sublist"
begin

section \<open>SalesForce\_to\_Parquet: the extraction script \<^verbatim>\<open>main.py\<close>\<close>

text \<open>
  A shallow embedding of \<^verbatim>\<open>src/main.py\<close>. The script reads a list of object
  descriptions from a JSON file, queries Salesforce once per object, turns the records
  into a pandas frame, coerces the columns to the declared types and writes the frame as
  a CSV file and as a parquet file. The per-object work runs on a thread pool.

  Everything the script does to the outside is a component of an explicit state (the
  directories and files on disk, the lines handed to \<^verbatim>\<open>logging\<close>, the queries sent to
  the API). The libraries the script calls (simple\_salesforce, the type conversion of
  pandas, configparser, json, the builtin \<^verbatim>\<open>int\<close>, the thread pool's scheduler) are
  not part of the repository: what they answer is a field of the record \<open>world\<close>, about
  which nothing is assumed.
\<close>

subsection \<open>Strings: \<^verbatim>\<open>str.strip\<close> and \<^verbatim>\<open>str.join\<close>\<close>

text \<open>
  A character is a code point below 256; a field name with a code point from 256 on is
  outside the type. \<^verbatim>\<open>str.strip()\<close> without argument removes, at both ends, the
  characters for which \<^verbatim>\<open>str.isspace\<close> holds: below 256 these are the code points 9 to
  13, 28 to 32, 133 (hexadecimal 85) and 160 (hexadecimal A0).
\<close>

definition isspace :: "char \<Rightarrow> bool" where
  "isspace c = (of_char c \<in> set [9, 10, 11, 12, 13, 28, 29, 30, 31, 32, 133, 160 :: nat])"

definition strip :: "string \<Rightarrow> string" where
  "strip s = rev (dropWhile isspace (rev (dropWhile isspace s)))"

fun join :: "string \<Rightarrow> string list \<Rightarrow> string" where
  "join sep [] = []"
| "join sep [x] = x"
| "join sep (x # y # ys) = x @ sep @ join sep (y # ys)"

subsection \<open>The schema: one entry of the JSON file\<close>

text \<open>
  An entry of the JSON list is a dict with the keys \<^verbatim>\<open>obj_name\<close> (read by
  \<^verbatim>\<open>execute\<close> for its log lines), \<^verbatim>\<open>obj_api_name\<close> and \<^verbatim>\<open>fields\<close>; a field is a dict
  with the keys \<^verbatim>\<open>field_api_name\<close> and \<^verbatim>\<open>type\<close>. The key \<^verbatim>\<open>fields\<close> is the
  record field \<open>fields_list\<close> (the record package reserves \<open>fields\<close>). The entries are
  taken to carry every key the script reads, with string values: a schema that is not
  a list of such entries (one without \<^verbatim>\<open>obj_name\<close>, say, for which the log lines of
  \<^verbatim>\<open>execute\<close> raise \<^verbatim>\<open>KeyError\<close> outside the \<^verbatim>\<open>try\<close>) is outside the type, and no
  statement below is about it.
\<close>

record field_spec =
  field_api_name :: string
  type :: string

record sf_object =
  obj_name :: string
  obj_api_name :: string
  fields_list :: "field_spec list"

text \<open>Lines 66 to 70 of \<^verbatim>\<open>get_sf_data\<close>: the field names, stripped, and the query.\<close>

definition field_names :: "sf_object \<Rightarrow> string list" where
  "field_names sf_object = map (\<lambda>f. strip (field_api_name f)) (fields_list sf_object)"

definition query :: "sf_object \<Rightarrow> string" where
  "query sf_object =
     ''SELECT '' @ join '','' (field_names sf_object) @ '' FROM '' @ obj_api_name sf_object"

subsection \<open>Exceptions and process exit\<close>

text \<open>
  Every exception the script can meet is a subclass of \<^verbatim>\<open>Exception\<close>; the model keeps the
  class and the message. \<^verbatim>\<open>sys.exit(n)\<close> raises \<^verbatim>\<open>SystemExit\<close>, which is not one. A
  process that ends on \<^verbatim>\<open>sys.exit(n)\<close> has exit status \<open>n\<close>; one that ends on an
  exception nobody caught has exit status 1.
\<close>

datatype exn =
    KeyError string
  | ValueError string
  | TypeError string
  | OSError string
  | SalesforceAuthenticationFailed string
  | OtherException string

datatype abort = SystemExit nat | Uncaught exn

fun exit_status :: "abort \<Rightarrow> nat" where
  "exit_status (SystemExit n) = n"
| "exit_status (Uncaught e) = 1"

subsection \<open>Records of the API and pandas frames\<close>

text \<open>
  A record of the API is a dict from field name to a scalar; the scalars are a type
  parameter \<open>'c\<close>. The bulk client answers a list of records. The REST client answers a
  dict (\<^verbatim>\<open>totalSize\<close>, \<^verbatim>\<open>done\<close>, \<^verbatim>\<open>records\<close>), whose values are of type \<open>json\<close>.
\<close>

type_synonym 'c row = "(string \<times> 'c) list"

datatype 'c json = JRecords "'c row list" | JInt int | JBool bool | JStr string

text \<open>
  A frame has an index (its length is the number of rows) and columns in order; a cell is
  \<open>None\<close> where the record had no such key (pandas writes NaN there).
\<close>

record 'c frame =
  index :: nat
  series :: "(string \<times> 'c option list) list"

definition first_seen :: "'a list \<Rightarrow> 'a list" where
  "first_seen xs = rev (remdups (rev xs))"

text \<open>\<^verbatim>\<open>pd.DataFrame.from_dict\<close> on a list of dicts: one row per dict, one column per key,
  the keys in the order in which they are first seen.\<close>

definition from_dict :: "'c row list \<Rightarrow> 'c frame" where
  "from_dict data =
     \<lparr>index = length data,
      series = map (\<lambda>k. (k, map (\<lambda>r. map_of r k) data))
                 (first_seen (concat (map (map fst) data)))\<rparr>"

text \<open>\<^verbatim>\<open>df.drop(label, axis=1)\<close>: a label that is no column raises \<^verbatim>\<open>KeyError\<close>.\<close>

definition drop_label :: "string \<Rightarrow> 'c frame \<Rightarrow> exn + 'c frame" where
  "drop_label l df =
     (if l \<in> set (map fst (series df))
      then Inr (df\<lparr>series := filter (\<lambda>c. fst c \<noteq> l) (series df)\<rparr>)
      else Inl (KeyError l))"

text \<open>
  \<^verbatim>\<open>df.astype(dict)\<close>: a key of the dict that is no column raises \<^verbatim>\<open>KeyError\<close>; then
  each column whose label is a key is converted, in column order, and the first
  conversion that fails raises. The conversion of one cell to a type tag is the world's
  \<open>astype_cell\<close>; a column converts when each of its cells does.
\<close>

fun astype_series :: "('c option \<Rightarrow> exn + 'c option) \<Rightarrow> 'c option list \<Rightarrow> exn + 'c option list" where
  "astype_series f [] = Inr []"
| "astype_series f (v # vs) =
     (case f v of
        Inl e \<Rightarrow> Inl e
      | Inr v' \<Rightarrow> (case astype_series f vs of Inl e \<Rightarrow> Inl e | Inr vs' \<Rightarrow> Inr (v' # vs')))"

fun astype_columns ::
  "(string \<Rightarrow> 'c option \<Rightarrow> exn + 'c option) \<Rightarrow> (string \<rightharpoonup> string) \<Rightarrow>
   (string \<times> 'c option list) list \<Rightarrow> exn + (string \<times> 'c option list) list" where
  "astype_columns conv dtype [] = Inr []"
| "astype_columns conv dtype (c # cs) =
     (case (case dtype (fst c) of None \<Rightarrow> Inr (snd c) | Some t \<Rightarrow> astype_series (conv t) (snd c)) of
        Inl e \<Rightarrow> Inl e
      | Inr vs \<Rightarrow>
          (case astype_columns conv dtype cs of
             Inl e \<Rightarrow> Inl e
           | Inr cs' \<Rightarrow> Inr ((fst c, vs) # cs')))"

text \<open>The dict is an association list in insertion order; a key given twice keeps its
  last value, as \<^verbatim>\<open>dict(zip(...))\<close> does.\<close>

definition astype ::
  "(string \<Rightarrow> 'c option \<Rightarrow> exn + 'c option) \<Rightarrow> (string \<times> string) list \<Rightarrow> 'c frame \<Rightarrow> exn + 'c frame" where
  "astype conv dict_fields df =
     (case filter (\<lambda>k. k \<notin> set (map fst (series df))) (map fst dict_fields) of
        k # ks \<Rightarrow> Inl (KeyError k)
      | [] \<Rightarrow>
          (case astype_columns conv (map_of (rev dict_fields)) (series df) of
             Inl e \<Rightarrow> Inl e
           | Inr cs \<Rightarrow> Inr (df\<lparr>series := cs\<rparr>)))"

text \<open>The rows of a frame, as \<^verbatim>\<open>to_csv\<close> writes them: row \<open>i\<close> holds cell \<open>i\<close> of each
  column.\<close>

definition rows_of :: "'c frame \<Rightarrow> 'c option list list" where
  "rows_of df = map (\<lambda>i. map (\<lambda>c. snd c ! i) (series df)) [0..<index df]"

subsection \<open>Command line, world and state\<close>

type_synonym path = "string list"

datatype exec_type = BULK | NORMAL

datatype log_level = INFO | DEBUG | WARNING | ERROR | CRITICAL

text \<open>The parsed command line (\<^verbatim>\<open>get_args\<close>); a path is the list of its components.\<close>

record args =
  config :: path
  json :: path
  exec_type :: exec_type
  log_level :: log_level
  log_path :: path
  output_path :: path

text \<open>
  What the libraries answer. \<open>bulk_query_all\<close> is \<^verbatim>\<open>SFBulkType(name, ...).query_all(query)\<close>,
  \<open>query_all\<close> is \<^verbatim>\<open>sf.query_all(query)\<close>, \<open>Salesforce\<close> the constructor of the
  connection, \<open>config_read\<close> what \<^verbatim>\<open>ConfigParser.read\<close> makes of a file (the lookup of a
  section and a key, \<open>None\<close> for \<^verbatim>\<open>KeyError\<close>), \<open>json_load\<close> is \<^verbatim>\<open>json.load\<close> on the
  opened file, \<open>py_int\<close> the builtin \<^verbatim>\<open>int\<close> on a string, and \<open>finish_time\<close> the moment
  at which the future with a given number completes (\<^verbatim>\<open>as_completed\<close> yields the futures
  in that order).
\<close>

record 'c world =
  bulk_query_all :: "string \<Rightarrow> string \<Rightarrow> exn + 'c row list"
  query_all :: "string \<Rightarrow> exn + (string \<times> 'c json) list"
  astype_cell :: "string \<Rightarrow> 'c option \<Rightarrow> exn + 'c option"
  Salesforce :: "string \<Rightarrow> string \<Rightarrow> string \<Rightarrow> string \<Rightarrow> exn + unit"
  config_read :: "path \<Rightarrow> exn + (string \<Rightarrow> string \<Rightarrow> string option)"
  json_load :: "path \<Rightarrow> exn + sf_object list"
  py_int :: "string \<Rightarrow> exn + int"
  finish_time :: "nat \<Rightarrow> nat"

text \<open>What a file holds. A CSV file written with \<^verbatim>\<open>index=False\<close> is a header row and the
  data rows; a parquet file is its compression and its columns.\<close>

datatype 'c content =
    CsvFile "string list" "'c option list list"
  | ParquetFile string "(string \<times> 'c option list) list"
  | LogFile
  | OtherFile

datatype 'c message =
    Has_fields string "string list"
  | Has_no_data sf_object
  | Dict_fields "(string \<times> string) list"
  | Dtypes "'c frame"
  | Generated_exception string exn
  | Has_rows string nat
  | Files_missing path path
  | Invalid_credentials exn
  | Could_not_connect exn
  | Script_took

record 'c state =
  dirs :: "path set"
  files :: "path \<rightharpoonup> 'c content"
  logged :: "(log_level \<times> 'c message) list"
  api_calls :: "(exec_type \<times> string) list"

definition logging :: "log_level \<Rightarrow> 'c message \<Rightarrow> 'c state \<Rightarrow> 'c state" where
  "logging lvl m s = s\<lparr>logged := logged s @ [(lvl, m)]\<rparr>"

subsection \<open>The file system\<close>

text \<open>
  The working directory \<open>[]\<close> always exists. Permissions and full disks are not modelled:
  a write fails only when the parent directory is missing or the target is a directory.
\<close>

definition is_dir :: "'c state \<Rightarrow> path \<Rightarrow> bool" where
  "is_dir s p = (p = [] \<or> p \<in> dirs s)"

definition path_exists :: "'c state \<Rightarrow> path \<Rightarrow> bool" where
  "path_exists s p = (is_dir s p \<or> p \<in> dom (files s))"

text \<open>\<^verbatim>\<open>shutil.rmtree(d, ignore_errors=True)\<close>: a directory goes with all below it;
  on anything else the error is ignored.\<close>

definition rmtree :: "path \<Rightarrow> 'c state \<Rightarrow> 'c state" where
  "rmtree d s =
     (if d \<in> dirs s
      then s\<lparr>dirs := {p \<in> dirs s. \<not> prefix d p},
             files := (\<lambda>p. if prefix d p then None else files s p)\<rparr>
      else s)"

text \<open>\<^verbatim>\<open>Path.mkdir(exist_ok=True, parents=True)\<close>: raises when the path or one of its
  parents is a regular file.\<close>

definition mkdir :: "path \<Rightarrow> 'c state \<Rightarrow> (exn + unit) \<times> 'c state" where
  "mkdir d s =
     (if list_ex (\<lambda>p. p \<in> dom (files s)) (prefixes d)
      then (Inl (OSError ''File exists''), s)
      else (Inr (), s\<lparr>dirs := dirs s \<union> set (prefixes d)\<rparr>))"

definition write_file :: "path \<Rightarrow> 'c content \<Rightarrow> 'c state \<Rightarrow> (exn + unit) \<times> 'c state" where
  "write_file p c s =
     (if is_dir s p then (Inl (OSError ''Is a directory''), s)
      else if is_dir s (butlast p) then (Inr (), s\<lparr>files := (files s)(p \<mapsto> c)\<rparr>)
      else (Inl (OSError ''No such file or directory''), s))"

text \<open>\<^verbatim>\<open>df.to_csv(path, index=False)\<close> and
  \<^verbatim>\<open>df.to_parquet(path, engine='pyarrow', compression='snappy', index=False)\<close>.\<close>

definition to_csv :: "path \<Rightarrow> 'c frame \<Rightarrow> 'c state \<Rightarrow> (exn + unit) \<times> 'c state" where
  "to_csv p df s = write_file p (CsvFile (map fst (series df)) (rows_of df)) s"

definition to_parquet :: "path \<Rightarrow> 'c frame \<Rightarrow> 'c state \<Rightarrow> (exn + unit) \<times> 'c state" where
  "to_parquet p df s = write_file p (ParquetFile ''snappy'' (series df)) s"

subsection \<open>\<^verbatim>\<open>get_sf_data\<close>\<close>

text \<open>
  Lines 72 to 84: the fetch. The result \<open>None\<close> is the early \<^verbatim>\<open>return 0\<close> of the branch
  \<^verbatim>\<open>if not data\<close>; a list is false when it is empty, and so is a dict. In the mode
  \<^verbatim>\<open>NORMAL\<close> the rows are \<^verbatim>\<open>data['records']\<close>.
\<close>

definition fetch ::
  "args \<Rightarrow> 'c world \<Rightarrow> sf_object \<Rightarrow> 'c state \<Rightarrow> (exn + 'c frame option) \<times> 'c state" where
  "fetch a w sf_object s =
     (let s1 = s\<lparr>api_calls := api_calls s @ [(exec_type a, query sf_object)]\<rparr> in
      if exec_type a = BULK then
        (case bulk_query_all w (obj_api_name sf_object) (query sf_object) of
           Inl e \<Rightarrow> (Inl e, s1)
         | Inr data \<Rightarrow>
             if data = [] then (Inr None, logging INFO (Has_no_data sf_object) s1)
             else (map_sum id Some (drop_label ''attributes'' (from_dict data)), s1))
      else
        (case query_all w (query sf_object) of
           Inl e \<Rightarrow> (Inl e, s1)
         | Inr data \<Rightarrow>
             if data = [] then (Inr None, logging INFO (Has_no_data sf_object) s1)
             else
               (case map_of data ''records'' of
                  None \<Rightarrow> (Inl (KeyError ''records''), s1)
                | Some (JRecords rs) \<Rightarrow>
                    (map_sum id Some (drop_label ''attributes'' (from_dict rs)), s1)
                | Some v \<Rightarrow> (Inl (ValueError ''DataFrame constructor not properly called!''), s1))))"

text \<open>Lines 86 to 96: the coercion and the two writes.\<close>

definition dict_fields :: "sf_object \<Rightarrow> (string \<times> string) list" where
  "dict_fields sf_object = zip (field_names sf_object) (map type (fields_list sf_object))"

definition csv_path :: "args \<Rightarrow> sf_object \<Rightarrow> path" where
  "csv_path a sf_object = output_path a @ [''csv'', obj_api_name sf_object @ ''.csv'']"

definition pq_path :: "args \<Rightarrow> sf_object \<Rightarrow> path" where
  "pq_path a sf_object = output_path a @ [''pq'', obj_api_name sf_object @ ''.parquet'']"

definition coerce_and_write ::
  "args \<Rightarrow> 'c world \<Rightarrow> sf_object \<Rightarrow> 'c frame \<Rightarrow> 'c state \<Rightarrow> (exn + nat) \<times> 'c state" where
  "coerce_and_write a w sf_object df0 s =
     (let s1 = logging DEBUG (Dict_fields (dict_fields sf_object)) s in
      case astype (astype_cell w) (dict_fields sf_object) df0 of
        Inl e \<Rightarrow> (Inl e, s1)
      | Inr df \<Rightarrow>
          (case to_csv (csv_path a sf_object) df s1 of
             (Inl e, s2) \<Rightarrow> (Inl e, s2)
           | (Inr u, s2) \<Rightarrow>
               (case to_parquet (pq_path a sf_object) df s2 of
                  (Inl e, s3) \<Rightarrow> (Inl e, s3)
                | (Inr u', s3) \<Rightarrow> (Inr (index df), logging DEBUG (Dtypes df) s3))))"

definition get_sf_data ::
  "args \<Rightarrow> 'c world \<Rightarrow> sf_object \<Rightarrow> 'c state \<Rightarrow> (exn + nat) \<times> 'c state" where
  "get_sf_data a w sf_object s =
     (case fetch a w sf_object
             (logging DEBUG (Has_fields (obj_api_name sf_object) (field_names sf_object)) s) of
        (Inl e, s') \<Rightarrow> (Inl e, s')
      | (Inr None, s') \<Rightarrow> (Inr 0, s')
      | (Inr (Some df), s') \<Rightarrow> coerce_and_write a w sf_object df s')"

subsection \<open>\<^verbatim>\<open>execute\<close>\<close>

text \<open>
  The dict \<^verbatim>\<open>genr\<close> has one future per element of the list: future number \<open>i\<close> is the
  one submitted for element \<open>i\<close>. \<^verbatim>\<open>as_completed\<close> yields the futures in the order in
  which they complete. A task is run as one step, at the moment it completes: the
  interleaving of the statements of two tasks is not modelled. The loop body logs the
  outcome; \<^verbatim>\<open>except Exception\<close> catches whatever the task raised.
\<close>

definition submit_all :: "sf_object list \<Rightarrow> (nat \<times> sf_object) list" where
  "submit_all list_sf_objects = zip [0..<length list_sf_objects] list_sf_objects"

definition as_completed :: "'c world \<Rightarrow> (nat \<times> sf_object) list \<Rightarrow> (nat \<times> sf_object) list" where
  "as_completed w genr = sort_key (\<lambda>future. finish_time w (fst future)) genr"

definition outcome :: "sf_object \<Rightarrow> exn + nat \<Rightarrow> log_level \<times> 'c message" where
  "outcome obj r =
     (case r of
        Inl e \<Rightarrow> (WARNING, Generated_exception (obj_name obj) e)
      | Inr data \<Rightarrow> (INFO, Has_rows (obj_name obj) data))"

definition run_future :: "args \<Rightarrow> 'c world \<Rightarrow> nat \<times> sf_object \<Rightarrow> 'c state \<Rightarrow> 'c state" where
  "run_future a w future s =
     (case get_sf_data a w (snd future) s of
        (r, s') \<Rightarrow> s'\<lparr>logged := logged s' @ [outcome (snd future) r]\<rparr>)"

definition execute ::
  "args \<Rightarrow> 'c world \<Rightarrow> sf_object list \<Rightarrow> string \<Rightarrow> 'c state \<Rightarrow> (exn + unit) \<times> 'c state" where
  "execute a w list_sf_objects threads s =
     (case py_int w threads of
        Inl e \<Rightarrow> (Inl e, s)
      | Inr n \<Rightarrow>
          if n \<le> 0 then (Inl (ValueError ''max_workers must be greater than 0''), s)
          else (Inr (), fold (run_future a w) (as_completed w (submit_all list_sf_objects)) s))"

subsection \<open>\<^verbatim>\<open>pre_steps\<close>, \<^verbatim>\<open>get_sf_conn\<close>, \<^verbatim>\<open>init_logger\<close> and the main block\<close>

text \<open>The loop of \<^verbatim>\<open>pre_steps\<close> over \<^verbatim>\<open>['csv', 'pq']\<close>: remove the directory, make it
  again. An exception of \<^verbatim>\<open>mkdir\<close> ends the loop.\<close>

fun clean_dirs :: "path \<Rightarrow> string list \<Rightarrow> 'c state \<Rightarrow> (exn + unit) \<times> 'c state" where
  "clean_dirs out [] s = (Inr (), s)"
| "clean_dirs out (d # ds) s =
     (case mkdir (out @ [d]) (rmtree (out @ [d]) s) of
        (Inl e, s') \<Rightarrow> (Inl e, s')
      | (Inr u, s') \<Rightarrow> clean_dirs out ds s')"

definition pre_steps :: "args \<Rightarrow> 'c state \<Rightarrow> (abort + unit) \<times> 'c state" where
  "pre_steps a s =
     (case clean_dirs (output_path a) [''csv'', ''pq''] s of
        (Inl e, s1) \<Rightarrow> (Inl (Uncaught e), s1)
      | (Inr u, s1) \<Rightarrow>
          if \<not> (path_exists s1 (config a) \<and> path_exists s1 (json a))
          then (Inl (SystemExit 1), logging ERROR (Files_missing (config a) (json a)) s1)
          else
            (case mkdir (log_path a) s1 of
               (Inl e, s2) \<Rightarrow> (Inl (Uncaught e), s2)
             | (Inr u', s2) \<Rightarrow> (Inr (), s2)))"

definition get_sf_conn ::
  "'c world \<Rightarrow> string \<Rightarrow> string \<Rightarrow> string \<Rightarrow> string \<Rightarrow> 'c state \<Rightarrow> (abort + unit) \<times> 'c state" where
  "get_sf_conn w sf_username sf_passwd sf_token sf_domain s =
     (case Salesforce w sf_username sf_passwd sf_token sf_domain of
        Inr sf \<Rightarrow> (Inr sf, s)
      | Inl (SalesforceAuthenticationFailed m) \<Rightarrow>
          (Inl (SystemExit 1), logging ERROR (Invalid_credentials (SalesforceAuthenticationFailed m)) s)
      | Inl e \<Rightarrow> (Inl (SystemExit 1), logging ERROR (Could_not_connect e) s))"

text \<open>\<^verbatim>\<open>init_logger\<close> opens the log file for appending, which creates it.\<close>

definition init_logger :: "args \<Rightarrow> 'c state \<Rightarrow> (exn + unit) \<times> 'c state" where
  "init_logger a s =
     (let p = log_path a @ [''salesforce_script.log''] in
      if p \<in> dom (files s) then (Inr (), s) else write_file p LogFile s)"

definition read_config :: "'c world \<Rightarrow> path \<Rightarrow> exn + (string \<Rightarrow> string \<Rightarrow> string option)" where
  "read_config w config_file = config_read w config_file"

definition get_json_data :: "'c world \<Rightarrow> path \<Rightarrow> exn + sf_object list" where
  "get_json_data w json_file = json_load w json_file"

text \<open>\<^verbatim>\<open>config[section][key]\<close>, which raises \<^verbatim>\<open>KeyError\<close> when either is missing.\<close>

definition getitem :: "(string \<Rightarrow> string \<Rightarrow> string option) \<Rightarrow> string \<Rightarrow> string \<Rightarrow> exn + string" where
  "getitem cfg section key = (case cfg section key of None \<Rightarrow> Inl (KeyError key) | Some v \<Rightarrow> Inr v)"

text \<open>Lines 143 to 148: the five settings, read in this order.\<close>

definition settings ::
  "(string \<Rightarrow> string \<Rightarrow> string option) \<Rightarrow> exn + (string \<times> string \<times> string \<times> string \<times> string)" where
  "settings cfg =
     (case getitem cfg ''salesforce'' ''username'' of Inl e \<Rightarrow> Inl e | Inr SF_USERNAME \<Rightarrow>
     (case getitem cfg ''salesforce'' ''password'' of Inl e \<Rightarrow> Inl e | Inr SF_PASSWORD \<Rightarrow>
     (case getitem cfg ''salesforce'' ''token'' of Inl e \<Rightarrow> Inl e | Inr SF_TOKEN \<Rightarrow>
     (case getitem cfg ''salesforce'' ''domain'' of Inl e \<Rightarrow> Inl e | Inr SF_DOMAIN \<Rightarrow>
     (case getitem cfg ''proc'' ''threads'' of Inl e \<Rightarrow> Inl e | Inr THREAD_COUNT \<Rightarrow>
        Inr (SF_USERNAME, SF_PASSWORD, SF_TOKEN, SF_DOMAIN, THREAD_COUNT))))))"

text \<open>
  The main block, from \<^verbatim>\<open>pre_steps()\<close> on; the command line is already parsed. The
  result is what ended the run (\<open>Inr ()\<close> when the last line was reached) and the state.
\<close>

definition run :: "args \<Rightarrow> 'c world \<Rightarrow> 'c state \<Rightarrow> (abort + unit) \<times> 'c state" where
  "run a w s =
     (case pre_steps a s of
        (Inl ab, s1) \<Rightarrow> (Inl ab, s1)
      | (Inr u1, s1) \<Rightarrow>
     (case init_logger a s1 of
        (Inl e, s2) \<Rightarrow> (Inl (Uncaught e), s2)
      | (Inr u2, s2) \<Rightarrow>
     (case read_config w (config a) of
        Inl e \<Rightarrow> (Inl (Uncaught e), s2)
      | Inr cfg \<Rightarrow>
     (case settings cfg of
        Inl e \<Rightarrow> (Inl (Uncaught e), s2)
      | Inr (SF_USERNAME, SF_PASSWORD, SF_TOKEN, SF_DOMAIN, THREAD_COUNT) \<Rightarrow>
     (case get_sf_conn w SF_USERNAME SF_PASSWORD SF_TOKEN SF_DOMAIN s2 of
        (Inl ab, s3) \<Rightarrow> (Inl ab, s3)
      | (Inr sf, s3) \<Rightarrow>
     (case get_json_data w (json a) of
        Inl e \<Rightarrow> (Inl (Uncaught e), s3)
      | Inr json_data \<Rightarrow>
     (case execute a w json_data THREAD_COUNT s3 of
        (Inl e, s4) \<Rightarrow> (Inl (Uncaught e), s4)
      | (Inr u3, s4) \<Rightarrow> (Inr (), logging INFO Script_took s4))))))))"

definition exit_code :: "args \<Rightarrow> 'c world \<Rightarrow> 'c state \<Rightarrow> nat" where
  "exit_code a w s = (case fst (run a w s) of Inl ab \<Rightarrow> exit_status ab | Inr u \<Rightarrow> 0)"

subsection \<open>Notions used in the statements\<close>

text \<open>The record set a fetch returned: the list the bulk client answered, or the value
  of \<^verbatim>\<open>data['records']\<close>.\<close>

definition rows_fetched :: "args \<Rightarrow> 'c world \<Rightarrow> sf_object \<Rightarrow> 'c row list option" where
  "rows_fetched a w sf_object =
     (if exec_type a = BULK then
        (case bulk_query_all w (obj_api_name sf_object) (query sf_object) of
           Inl e \<Rightarrow> None
         | Inr data \<Rightarrow> Some data)
      else
        (case query_all w (query sf_object) of
           Inl e \<Rightarrow> None
         | Inr data \<Rightarrow>
             (case map_of data ''records'' of Some (JRecords rs) \<Rightarrow> Some rs | _ \<Rightarrow> None)))"

text \<open>The table after lines 78 or 84 and line 89, when all of them succeed.\<close>

definition coerced_table :: "args \<Rightarrow> 'c world \<Rightarrow> sf_object \<Rightarrow> 'c frame option" where
  "coerced_table a w sf_object =
     (case rows_fetched a w sf_object of
        None \<Rightarrow> None
      | Some rs \<Rightarrow>
          (case drop_label ''attributes'' (from_dict rs) of
             Inl e \<Rightarrow> None
           | Inr df0 \<Rightarrow>
               (case astype (astype_cell w) (dict_fields sf_object) df0 of
                  Inl e \<Rightarrow> None
                | Inr df \<Rightarrow> Some df)))"

text \<open>The condition of the branch \<^verbatim>\<open>if not data\<close>, and an object without rows: one that
  takes that branch, or whose record set is the empty list.\<close>

definition empty_result :: "args \<Rightarrow> 'c world \<Rightarrow> sf_object \<Rightarrow> bool" where
  "empty_result a w sf_object =
     (if exec_type a = BULK
      then bulk_query_all w (obj_api_name sf_object) (query sf_object) = Inr []
      else query_all w (query sf_object) = Inr [])"

definition zero_rows :: "args \<Rightarrow> 'c world \<Rightarrow> sf_object \<Rightarrow> bool" where
  "zero_rows a w sf_object = (empty_result a w sf_object \<or> rows_fetched a w sf_object = Some [])"

text \<open>The lines that the loop of \<^verbatim>\<open>execute\<close> logs, one per future.\<close>

definition is_outcome :: "log_level \<times> 'c message \<Rightarrow> bool" where
  "is_outcome l =
     (case snd l of Generated_exception n e \<Rightarrow> True | Has_rows n d \<Rightarrow> True | _ \<Rightarrow> False)"

definition outcomes :: "'c state \<Rightarrow> (log_level \<times> 'c message) list" where
  "outcomes s = filter is_outcome (logged s)"

text \<open>The query as the specification words it: the field names as they are declared.\<close>

definition query_as_specified :: "sf_object \<Rightarrow> string" where
  "query_as_specified sf_object =
     ''SELECT '' @ join '','' (map field_api_name (fields_list sf_object)) @ '' FROM ''
       @ obj_api_name sf_object"

text \<open>An object with its field names stripped.\<close>

definition stripped :: "sf_object \<Rightarrow> sf_object" where
  "stripped sf_object =
     sf_object\<lparr>fields_list :=
       map (\<lambda>f. f\<lparr>field_api_name := strip (field_api_name f)\<rparr>) (fields_list sf_object)\<rparr>"

subsection \<open>Example inputs\<close>

datatype scalar = SStr string | SInt int | SBool bool

definition ex_account :: sf_object where
  "ex_account = \<lparr>obj_name = ''Account'', obj_api_name = ''Account'',
     fields_list = [\<lparr>field_api_name = ''Id'', type = ''str''\<rparr>,
                    \<lparr>field_api_name = ''Name'', type = ''str''\<rparr>]\<rparr>"

definition ex_contact :: sf_object where
  "ex_contact = \<lparr>obj_name = ''Contact'', obj_api_name = ''Contact'',
     fields_list = [\<lparr>field_api_name = ''Id'', type = ''str''\<rparr>,
                    \<lparr>field_api_name = ''Age'', type = ''int64''\<rparr>]\<rparr>"

definition ex_lead :: sf_object where
  "ex_lead = \<lparr>obj_name = ''Lead'', obj_api_name = ''Lead'',
     fields_list = [\<lparr>field_api_name = ''Id'', type = ''str''\<rparr>,
                    \<lparr>field_api_name = ''Age'', type = ''int64''\<rparr>]\<rparr>"

definition ex_padded :: sf_object where
  "ex_padded = \<lparr>obj_name = ''Account'', obj_api_name = ''Account'',
     fields_list = [\<lparr>field_api_name = '' Id'', type = ''str''\<rparr>]\<rparr>"

text \<open>Names with a no-break space in front and a next-line character behind.\<close>

definition ex_nbsp :: sf_object where
  "ex_nbsp = \<lparr>obj_name = ''Account'', obj_api_name = ''Account'',
     fields_list = [\<lparr>field_api_name = CHR 0xA0 # ''Id'', type = ''str''\<rparr>,
                    \<lparr>field_api_name = ''Name'' @ [CHR 0x85], type = ''str''\<rparr>]\<rparr>"

definition ex_account_rows :: "scalar row list" where
  "ex_account_rows =
     [[(''attributes'', SStr ''Account''), (''Id'', SStr ''001''), (''Name'', SStr ''Acme'')],
      [(''attributes'', SStr ''Account''), (''Id'', SStr ''002''), (''Name'', SStr ''Bolt'')]]"

definition ex_lead_rows :: "scalar row list" where
  "ex_lead_rows = [[(''attributes'', SStr ''Lead''), (''Id'', SStr ''003''), (''Age'', SStr ''abc'')]]"

text \<open>Salesforce holds two accounts, no contact, and one lead whose age is not a number.\<close>

definition ex_rows :: "string \<Rightarrow> exn + scalar row list" where
  "ex_rows q =
     (if q = ''SELECT Id,Name FROM Account'' then Inr ex_account_rows
      else if q = ''SELECT Id,Age FROM Contact'' then Inr []
      else if q = ''SELECT Id,Age FROM Lead'' then Inr ex_lead_rows
      else Inl (OtherException ''MALFORMED_QUERY''))"

definition ex_astype_cell :: "string \<Rightarrow> scalar option \<Rightarrow> exn + scalar option" where
  "ex_astype_cell t v =
     (if t = ''int64''
      then (case v of Some (SInt n) \<Rightarrow> Inr v | _ \<Rightarrow> Inl (ValueError ''invalid literal for int()''))
      else Inr v)"

definition ex_config :: "string \<Rightarrow> string \<Rightarrow> string option" where
  "ex_config section key =
     map_of [((''salesforce'', ''username''), ''user''), ((''salesforce'', ''password''), ''secret''),
             ((''salesforce'', ''token''), ''tok''), ((''salesforce'', ''domain''), ''login''),
             ((''proc'', ''threads''), ''2'')] (section, key)"

definition ex_world :: "scalar world" where
  "ex_world =
     \<lparr>bulk_query_all = (\<lambda>name q. ex_rows q),
      query_all = (\<lambda>q.
        case ex_rows q of
          Inl e \<Rightarrow> Inl e
        | Inr rs \<Rightarrow> Inr [(''totalSize'', JInt (int (length rs))), (''done'', JBool True),
                          (''records'', JRecords rs)]),
      astype_cell = ex_astype_cell,
      Salesforce = (\<lambda>u p t d. if p = ''secret'' then Inr ()
                                else Inl (SalesforceAuthenticationFailed ''INVALID_LOGIN'')),
      config_read = (\<lambda>p. Inr ex_config),
      json_load = (\<lambda>p. Inr [ex_account, ex_lead, ex_contact]),
      py_int = (\<lambda>s. if s = ''2'' then Inr 2 else Inl (ValueError ''invalid literal for int()'')),
      finish_time = (\<lambda>i. 3 - i)\<rparr>"

definition ex_args :: "exec_type \<Rightarrow> args" where
  "ex_args mode =
     \<lparr>config = [''cfg.ini''], json = [''objects.json''], exec_type = mode, log_level = INFO,
      log_path = [''logs''], output_path = [''out'']\<rparr>"

text \<open>The disk before a run: the two input files, and the output of an earlier run.\<close>

definition ex_state :: "scalar state" where
  "ex_state =
     \<lparr>dirs = {[''out''], [''out'', ''csv''], [''out'', ''pq'']},
      files = [[''cfg.ini''] \<mapsto> OtherFile, [''objects.json''] \<mapsto> OtherFile,
               [''out'', ''csv'', ''Old.csv''] \<mapsto> CsvFile [''Id''] []],
      logged = [], api_calls = []\<rparr>"

text \<open>A world that always connects, and whose config file has no section \<^verbatim>\<open>proc\<close>.\<close>

definition ex_world_no_threads :: "scalar world" where
  "ex_world_no_threads =
     ex_world\<lparr>Salesforce := (\<lambda>u p t d. Inr ()),
              config_read := (\<lambda>p. Inr (\<lambda>section key. if section = ''proc'' then None else ex_config section key))\<rparr>"

text \<open>The same disk without the config file.\<close>

definition ex_state_no_config :: "scalar state" where
  "ex_state_no_config = ex_state\<lparr>files := (files ex_state)([''cfg.ini''] := None)\<rparr>"

text \<open>The table of the two accounts, coerced.\<close>

definition ex_account_table :: "scalar frame" where
  "ex_account_table =
     \<lparr>index = 2,
      series = [(''Id'', [Some (SStr ''001''), Some (SStr ''002'')]),
                (''Name'', [Some (SStr ''Acme''), Some (SStr ''Bolt'')])]\<rparr>"

text \<open>A world in which Salesforce rejects the credentials.\<close>

definition ex_world_wrong_password :: "scalar world" where
  "ex_world_wrong_password =
     ex_world\<lparr>Salesforce := (\<lambda>u p t d. Inl (SalesforceAuthenticationFailed ''INVALID_LOGIN''))\<rparr>"

text \<open>The example disk after the loop of \<^verbatim>\<open>pre_steps\<close>, and after \<^verbatim>\<open>init_logger\<close>.\<close>

definition ex_cleaned :: "scalar state" where
  "ex_cleaned =
     ex_state\<lparr>dirs := {[], [''out''], [''out'', ''csv''], [''out'', ''pq'']},
              files := [[''cfg.ini''] \<mapsto> OtherFile, [''objects.json''] \<mapsto> OtherFile]\<rparr>"

definition ex_started :: "scalar state" where
  "ex_started =
     ex_state\<lparr>dirs := {[], [''out''], [''out'', ''csv''], [''out'', ''pq''], [''logs'']},
              files := [[''cfg.ini''] \<mapsto> OtherFile, [''objects.json''] \<mapsto> OtherFile,
                        [''logs'', ''salesforce_script.log''] \<mapsto> LogFile]\<rparr>"

subsection \<open>The start-up of a run\<close>

text \<open>Every step of the main block before the loop of \<^verbatim>\<open>execute\<close> succeeds. The
  fetches, the coercions and the writes of the objects are no part of it.\<close>

definition startup_ok :: "args \<Rightarrow> 'c world \<Rightarrow> 'c state \<Rightarrow> bool" where
  "startup_ok a w s =
     (\<exists>s1 s2 cfg u p t d th l n.
        pre_steps a s = (Inr (), s1) \<and> init_logger a s1 = (Inr (), s2)
        \<and> read_config w (config a) = Inr cfg \<and> settings cfg = Inr (u, p, t, d, th)
        \<and> Salesforce w u p t d = Inr () \<and> get_json_data w (json a) = Inr l
        \<and> py_int w th = Inr n \<and> 0 < n)"

section \<open>Properties\<close>

subsection \<open>What a task changes\<close>

lemma write_file_dirs: "dirs (snd (write_file p c s)) = dirs s"
  by (simp add: write_file_def)
lemma write_file_logged: "logged (snd (write_file p c s)) = logged s"
  by (simp add: write_file_def)
lemma write_file_api: "api_calls (snd (write_file p c s)) = api_calls s"
  by (simp add: write_file_def)
lemma write_file_fst: "dirs s1 = dirs s2 \<Longrightarrow> fst (write_file p c s1) = fst (write_file p c s2)"
  by (simp add: write_file_def is_dir_def)

lemma fetch_dirs: "dirs (snd (fetch a w ob s)) = dirs s"
  by (simp add: fetch_def logging_def Let_def split: sum.splits option.splits json.splits)
lemma fetch_files: "files (snd (fetch a w ob s)) = files s"
  by (simp add: fetch_def logging_def Let_def split: sum.splits option.splits json.splits)
lemma fetch_api: "api_calls (snd (fetch a w ob s)) = api_calls s @ [(exec_type a, query ob)]"
  by (simp add: fetch_def logging_def Let_def split: sum.splits option.splits json.splits)
lemma fetch_fst: "fst (fetch a w ob s1) = fst (fetch a w ob s2)"
  by (simp add: fetch_def logging_def Let_def split: sum.splits option.splits json.splits)

lemma cw_dirs: "dirs (snd (coerce_and_write a w ob df s)) = dirs s"
  by (simp add: coerce_and_write_def to_csv_def to_parquet_def write_file_def logging_def Let_def split: sum.splits prod.splits)
lemma cw_api: "api_calls (snd (coerce_and_write a w ob df s)) = api_calls s"
  by (simp add: coerce_and_write_def to_csv_def to_parquet_def write_file_def logging_def Let_def split: sum.splits prod.splits)
lemma cw_fst: "dirs s1 = dirs s2 \<Longrightarrow> fst (coerce_and_write a w ob df s1) = fst (coerce_and_write a w ob df s2)"
  by (simp add: coerce_and_write_def to_csv_def to_parquet_def write_file_def logging_def is_dir_def Let_def split: sum.splits prod.splits)

lemma get_sf_data_dirs: "dirs (snd (get_sf_data a w ob s)) = dirs s"
  unfolding get_sf_data_def
  by (cases "fetch a w ob (logging DEBUG (Has_fields (obj_api_name ob) (field_names ob)) s)")
     (use fetch_dirs[of a w ob "logging DEBUG (Has_fields (obj_api_name ob) (field_names ob)) s"] in
      \<open>auto simp: cw_dirs logging_def split: sum.splits option.splits\<close>)

lemma fetch_outcomes: "outcomes (snd (fetch a w ob s)) = outcomes s"
  by (simp add: outcomes_def is_outcome_def fetch_def logging_def Let_def split: sum.splits option.splits json.splits)

lemma cw_outcomes: "outcomes (snd (coerce_and_write a w ob df s)) = outcomes s"
  by (simp add: outcomes_def is_outcome_def coerce_and_write_def to_csv_def to_parquet_def write_file_def logging_def Let_def split: sum.splits prod.splits)

lemma get_sf_data_outcomes: "outcomes (snd (get_sf_data a w ob s)) = outcomes s"
proof -
  let ?s = "logging DEBUG (Has_fields (obj_api_name ob) (field_names ob)) s"
  have "outcomes ?s = outcomes s" by (simp add: outcomes_def is_outcome_def logging_def)
  with fetch_outcomes[of a w ob ?s] show ?thesis
    unfolding get_sf_data_def
    by (cases "fetch a w ob ?s") (auto simp: cw_outcomes split: sum.splits option.splits)
qed

lemma get_sf_data_api: "api_calls (snd (get_sf_data a w ob s)) = api_calls s @ [(exec_type a, query ob)]"
proof -
  let ?s = "logging DEBUG (Has_fields (obj_api_name ob) (field_names ob)) s"
  have "api_calls ?s = api_calls s" by (simp add: logging_def)
  with fetch_api[of a w ob ?s] show ?thesis
    unfolding get_sf_data_def
    by (cases "fetch a w ob ?s") (auto simp: cw_api split: sum.splits option.splits)
qed

lemma get_sf_data_fst:
  assumes "dirs s1 = dirs s2"
  shows "fst (get_sf_data a w ob s1) = fst (get_sf_data a w ob s2)"
proof -
  let ?s1 = "logging DEBUG (Has_fields (obj_api_name ob) (field_names ob)) s1"
  let ?s2 = "logging DEBUG (Has_fields (obj_api_name ob) (field_names ob)) s2"
  have f: "fst (fetch a w ob ?s1) = fst (fetch a w ob ?s2)" by (rule fetch_fst)
  have d: "dirs (snd (fetch a w ob ?s1)) = dirs (snd (fetch a w ob ?s2))"
    using assms by (simp add: fetch_dirs logging_def)
  show ?thesis
    unfolding get_sf_data_def using f d
    by (cases "fetch a w ob ?s1"; cases "fetch a w ob ?s2")
       (auto split: sum.splits option.splits intro: cw_fst)
qed

subsection \<open>The loop of \<^verbatim>\<open>execute\<close>\<close>

lemma run_future_alt:
  "run_future a w fut s =
     (snd (get_sf_data a w (snd fut) s))
       \<lparr>logged := logged (snd (get_sf_data a w (snd fut) s)) @
                   [outcome (snd fut) (fst (get_sf_data a w (snd fut) s))]\<rparr>"
  by (cases "get_sf_data a w (snd fut) s") (simp add: run_future_def)

lemma run_future_dirs: "dirs (run_future a w fut s) = dirs s"
  by (simp add: run_future_alt get_sf_data_dirs)

lemma run_future_api: "api_calls (run_future a w fut s) = api_calls s @ [(exec_type a, query (snd fut))]"
  by (simp add: run_future_alt get_sf_data_api)

lemma is_outcome_outcome: "is_outcome (outcome ob r)"
  by (simp add: is_outcome_def outcome_def split: sum.splits)

lemma run_future_outcomes:
  "outcomes (run_future a w fut s) = outcomes s @ [outcome (snd fut) (fst (get_sf_data a w (snd fut) s))]"
  using get_sf_data_outcomes[of a w "snd fut" s]
  by (simp add: run_future_alt outcomes_def is_outcome_outcome)

lemma fold_dirs: "dirs (fold (run_future a w) futs s) = dirs s"
  by (induction futs arbitrary: s) (simp_all add: run_future_dirs)

lemma fold_api:
  "api_calls (fold (run_future a w) futs s) = api_calls s @ map (\<lambda>fut. (exec_type a, query (snd fut))) futs"
  by (induction futs arbitrary: s) (simp_all add: run_future_api)

lemma fold_outcomes:
  "dirs s = dirs s0 \<Longrightarrow> outcomes (fold (run_future a w) futs s) =
     outcomes s @ map (\<lambda>fut. outcome (snd fut) (fst (get_sf_data a w (snd fut) s0))) futs"
proof (induction futs arbitrary: s)
  case Nil
  then show ?case by simp
next
  case (Cons fut futs)
  have "fst (get_sf_data a w (snd fut) s) = fst (get_sf_data a w (snd fut) s0)"
    using Cons.prems by (rule get_sf_data_fst)
  moreover have "dirs (run_future a w fut s) = dirs s0"
    using Cons.prems by (simp add: run_future_dirs)
  ultimately show ?case
    using Cons.IH[of "run_future a w fut s"] by (simp add: run_future_outcomes)
qed

lemma submit_all_snd: "map snd (submit_all l) = l"
  by (simp add: submit_all_def)
lemma submit_all_fst: "map fst (submit_all l) = [0..<length l]"
  by (simp add: submit_all_def)

lemma mset_as_completed: "mset (as_completed w genr) = mset genr"
  by (simp add: as_completed_def)

lemma as_completed_objs: "mset (map snd (as_completed w (submit_all l))) = mset l"
proof -
  have "mset (map snd (as_completed w (submit_all l))) = image_mset snd (mset (as_completed w (submit_all l)))"
    by simp
  also have "\<dots> = image_mset snd (mset (submit_all l))"
    by (simp only: mset_as_completed)
  also have "\<dots> = mset (map snd (submit_all l))" by simp
  finally show ?thesis by (simp only: submit_all_snd)
qed

lemma as_completed_queries:
  "mset (map (\<lambda>fut. f (snd fut)) (as_completed w (submit_all l))) = image_mset f (mset l)"
proof -
  have "map (\<lambda>fut. f (snd fut)) (as_completed w (submit_all l)) = map f (map snd (as_completed w (submit_all l)))"
    by simp
  then have "mset (map (\<lambda>fut. f (snd fut)) (as_completed w (submit_all l)))
      = image_mset f (mset (map snd (as_completed w (submit_all l))))"
    by (simp only: mset_map)
  then show ?thesis by (simp only: as_completed_objs)
qed

text \<open>
  Claim C4 (one task per element of the list, none skipped, none run twice, duplicates
  included). The dict of futures has one future per element, in list order, under
  distinct keys; the futures that complete are these, each once; and the run sends one
  query per element: the queries of the run are, as a multiset, the queries of the list.
\<close>

theorem one_task_per_object:
  assumes "py_int w threads = Inr n" and "0 < n"
  shows "map snd (submit_all l) = l \<and> distinct (map fst (submit_all l))
     \<and> mset (map snd (as_completed w (submit_all l))) = mset l
     \<and> fst (execute a w l threads s) = Inr ()
     \<and> mset (api_calls (snd (execute a w l threads s)))
        = mset (api_calls s) + image_mset (\<lambda>ob. (exec_type a, query ob)) (mset l)"
proof -
  have "mset (api_calls (snd (execute a w l threads s)))
        = mset (api_calls s) + image_mset (\<lambda>ob. (exec_type a, query ob)) (mset l)"
    using assms as_completed_queries[of "\<lambda>ob. (exec_type a, query ob)" w l]
    by (simp add: execute_def fold_api)
  moreover have "fst (execute a w l threads s) = Inr ()"
    using assms by (simp add: execute_def)
  ultimately show ?thesis
    using as_completed_objs[of w l] by (simp add: submit_all_snd submit_all_fst)
qed

text \<open>
  Claim C2 (an exception of one task is caught at the task boundary, logged with the name
  of the object and the exception, and keeps no other task from its outcome). With a
  thread count that makes a pool, \<^verbatim>\<open>execute\<close> returns without an exception whatever the
  tasks do; it logs one outcome line per future, in the order of completion, a warning
  with the object's name and the exception for a task that raised and the row count
  otherwise; the outcome of each task is the one it has when it runs alone on the
  initial state; and the futures completed are the objects of the list, each once.
\<close>

theorem execute_isolates_failures:
  assumes "py_int w threads = Inr n" and "0 < n"
  shows "fst (execute a w l threads s) = Inr ()
     \<and> outcomes (snd (execute a w l threads s)) =
         outcomes s @ map (\<lambda>fut. outcome (snd fut) (fst (get_sf_data a w (snd fut) s)))
                        (as_completed w (submit_all l))
     \<and> mset (map snd (as_completed w (submit_all l))) = mset l"
  using assms as_completed_objs[of w l] by (simp add: execute_def fold_outcomes)

subsection \<open>Coercion failures\<close>

lemma fetch_rows:
  assumes "rows_fetched a w ob = Some rs" and "rs \<noteq> []"
  shows "fetch a w ob s =
     (map_sum id Some (drop_label ''attributes'' (from_dict rs)),
      s\<lparr>api_calls := api_calls s @ [(exec_type a, query ob)]\<rparr>)"
proof (cases "exec_type a = BULK")
  case True
  with assms show ?thesis
    by (simp add: rows_fetched_def fetch_def Let_def split: sum.splits)
next
  case False
  with assms(1) obtain data where d: "query_all w (query ob) = Inr data"
      and r: "map_of data ''records'' = Some (JRecords rs)"
    by (auto simp: rows_fetched_def split: sum.splits option.splits json.splits)
  from r have "data \<noteq> []" by auto
  with False d r show ?thesis
    by (simp add: fetch_def Let_def)
qed

lemma set_first_seen: "set (first_seen xs) = set xs"
  by (simp add: first_seen_def)

lemma from_dict_column:
  assumes "r \<in> set rs" and "map_of r k = Some v"
  shows "(k, map (\<lambda>r. map_of r k) rs) \<in> set (series (from_dict rs))"
proof -
  from assms(2) have "(k, v) \<in> set r" by (rule map_of_SomeD)
  then have "k \<in> fst ` set r" by force
  with assms(1) have "k \<in> set (concat (map (map fst) rs))" by auto
  then show ?thesis by (auto simp: from_dict_def set_first_seen)
qed

lemma astype_series_fails:
  "c \<in> set vs \<Longrightarrow> f c = Inl e \<Longrightarrow> \<exists>e'. astype_series f vs = Inl e'"
  by (induction vs) (auto split: sum.splits)

lemma astype_columns_fails:
  "(k, vs) \<in> set cs \<Longrightarrow> dtype k = Some t \<Longrightarrow> c \<in> set vs \<Longrightarrow> conv t c = Inl e \<Longrightarrow>
     \<exists>e'. astype_columns conv dtype cs = Inl e'"
proof (induction cs)
  case Nil
  then show ?case by simp
next
  case (Cons col cs)
  show ?case
  proof (cases "col = (k, vs)")
    case True
    from Cons.prems obtain e' where "astype_series (conv t) vs = Inl e'"
      using astype_series_fails by metis
    with True Cons.prems(2) show ?thesis by simp
  next
    case False
    with Cons obtain e' where "astype_columns conv dtype cs = Inl e'" by auto
    then show ?thesis by (simp split: sum.splits option.splits)
  qed
qed

lemma astype_fails:
  assumes "map_of (rev dict) k = Some t"
      and "k \<notin> set (map fst (series df)) \<or> (\<exists>vs c e. (k, vs) \<in> set (series df) \<and> c \<in> set vs \<and> conv t c = Inl e)"
  shows "\<exists>e'. astype conv dict df = Inl e'"
proof (cases "filter (\<lambda>k. k \<notin> set (map fst (series df))) (map fst dict)")
  case (Cons k' ks)
  then show ?thesis by (simp add: astype_def)
next
  case Nil
  from assms(1) have "k \<in> set (map fst dict)"
    by (metis map_of_eq_None_iff option.distinct(1) set_map set_rev)
  with Nil have "k \<in> set (map fst (series df))"
    by (metis (mono_tags, lifting) filter_empty_conv)
  with assms(2) obtain vs c e where "(k, vs) \<in> set (series df)" "c \<in> set vs" "conv t c = Inl e"
    by blast
  with assms(1) obtain e' where "astype_columns conv (map_of (rev dict)) (series df) = Inl e'"
    using astype_columns_fails by metis
  with Nil show ?thesis by (simp add: astype_def)
qed

lemma coerce_and_write_fails:
  assumes "astype (astype_cell w) (dict_fields ob) df = Inl e"
  shows "coerce_and_write a w ob df s = (Inl e, logging DEBUG (Dict_fields (dict_fields ob)) s)"
  using assms by (simp add: coerce_and_write_def Let_def)

text \<open>
  Claim C3 (a record with a value that does not convert to the declared type of its field
  makes the task fail and write no file). When some record of the fetched set has, under a
  key \<open>k\<close> of the type dict, a value that \<open>astype_cell\<close> rejects for the type declared for
  \<open>k\<close>, the task ends in an exception, and the files and directories are those of before:
  neither of the two files of the object is made, and no file of another object is touched.
\<close>

theorem coercion_failure_writes_nothing:
  assumes rows: "rows_fetched a w ob = Some rs"
      and r: "r \<in> set rs" and v: "map_of r k = Some v"
      and t: "map_of (rev (dict_fields ob)) k = Some t"
      and bad: "astype_cell w t (Some v) = Inl e"
  shows "(\<exists>e'. fst (get_sf_data a w ob s) = Inl e')
       \<and> files (snd (get_sf_data a w ob s)) = files s
       \<and> dirs (snd (get_sf_data a w ob s)) = dirs s"
proof -
  let ?s = "logging DEBUG (Has_fields (obj_api_name ob) (field_names ob)) s"
  let ?s' = "?s\<lparr>api_calls := api_calls ?s @ [(exec_type a, query ob)]\<rparr>"
  from r have ne: "rs \<noteq> []" by auto
  have f: "fetch a w ob ?s = (map_sum id Some (drop_label ''attributes'' (from_dict rs)), ?s')"
    using rows ne by (rule fetch_rows)
  have fs: "files ?s' = files s" "dirs ?s' = dirs s" by (simp_all add: logging_def)
  show ?thesis
  proof (cases "drop_label ''attributes'' (from_dict rs)")
    case (Inl e0)
    with f fs show ?thesis by (simp add: get_sf_data_def)
  next
    case (Inr df)
    then have df: "series df = filter (\<lambda>c. fst c \<noteq> ''attributes'') (series (from_dict rs))"
      by (auto simp: drop_label_def split: if_splits)
    have col: "(k, map (\<lambda>r. map_of r k) rs) \<in> set (series (from_dict rs))"
      using r v by (rule from_dict_column)
    have cell: "Some v \<in> set (map (\<lambda>r. map_of r k) rs)"
      using r v by force
    have "k \<notin> set (map fst (series df)) \<or>
          (\<exists>vs c e. (k, vs) \<in> set (series df) \<and> c \<in> set vs \<and> astype_cell w t c = Inl e)"
    proof (cases "k = ''attributes''")
      case True
      then show ?thesis by (auto simp: df)
    next
      case False
      with col have "(k, map (\<lambda>r. map_of r k) rs) \<in> set (series df)" by (simp add: df)
      with cell bad show ?thesis by blast
    qed
    with t obtain e' where "astype (astype_cell w) (dict_fields ob) df = Inl e'"
      using astype_fails by metis
    then have "coerce_and_write a w ob df ?s' = (Inl e', logging DEBUG (Dict_fields (dict_fields ob)) ?s')"
      by (rule coerce_and_write_fails)
    with f Inr show ?thesis by (simp add: get_sf_data_def logging_def)
  qed
qed

subsection \<open>The two writes\<close>

lemma drop_label_empty: "drop_label l (from_dict []) = Inl (KeyError l)"
  by (simp add: drop_label_def from_dict_def first_seen_def)

lemma drop_label_index: "drop_label l df0 = Inr df \<Longrightarrow> index df = index df0"
  by (auto simp: drop_label_def split: if_splits)

lemma astype_index: "astype conv d df0 = Inr df \<Longrightarrow> index df = index df0"
  by (auto simp: astype_def split: list.splits sum.splits)

lemma length_rows_of: "length (rows_of df) = index df"
  by (simp add: rows_of_def)

lemma row_width: "row \<in> set (rows_of df) \<Longrightarrow> length row = length (series df)"
  by (auto simp: rows_of_def)

lemma rows_of_cell:
  "i < index df \<Longrightarrow> j < length (series df) \<Longrightarrow> rows_of df ! i ! j = snd (series df ! j) ! i"
  by (simp add: rows_of_def)

lemma write_file_ok:
  "\<not> is_dir s p \<Longrightarrow> is_dir s (butlast p) \<Longrightarrow>
     write_file p c s = (Inr (), s\<lparr>files := (files s)(p \<mapsto> c)\<rparr>)"
  by (simp add: write_file_def)

lemma is_dir_files_upd [simp]: "is_dir (s\<lparr>files := f\<rparr>) p = is_dir s p"
  by (simp add: is_dir_def)

lemma is_dir_logging [simp]: "is_dir (logging l m s) p = is_dir s p"
  by (simp add: is_dir_def logging_def)

lemma is_dir_api [simp]: "is_dir (s\<lparr>api_calls := c\<rparr>) p = is_dir s p"
  by (simp add: is_dir_def)

lemma coerce_and_write_ok:
  assumes "astype (astype_cell w) (dict_fields ob) df0 = Inr df"
      and "is_dir s (output_path a @ [''csv''])" and "is_dir s (output_path a @ [''pq''])"
      and "\<not> is_dir s (csv_path a ob)" and "\<not> is_dir s (pq_path a ob)"
  shows "coerce_and_write a w ob df0 s =
     (Inr (index df),
      logging DEBUG (Dtypes df)
        ((logging DEBUG (Dict_fields (dict_fields ob)) s)
           \<lparr>files := (files s)(csv_path a ob \<mapsto> CsvFile (map fst (series df)) (rows_of df),
                               pq_path a ob \<mapsto> ParquetFile ''snappy'' (series df))\<rparr>))"
proof -
  let ?s1 = "logging DEBUG (Dict_fields (dict_fields ob)) s"
  let ?c = "CsvFile (map fst (series df)) (rows_of df)"
  have b1: "butlast (csv_path a ob) = output_path a @ [''csv'']"
    by (simp add: csv_path_def butlast_append)
  have b2: "butlast (pq_path a ob) = output_path a @ [''pq'']"
    by (simp add: pq_path_def butlast_append)
  have w1: "to_csv (csv_path a ob) df ?s1 = (Inr (), ?s1\<lparr>files := (files ?s1)(csv_path a ob \<mapsto> ?c)\<rparr>)"
    unfolding to_csv_def using assms(2,4) by (intro write_file_ok) (simp_all add: b1)
  let ?s2 = "?s1\<lparr>files := (files ?s1)(csv_path a ob \<mapsto> ?c)\<rparr>"
  have w2: "to_parquet (pq_path a ob) df ?s2 =
      (Inr (), ?s2\<lparr>files := (files ?s2)(pq_path a ob \<mapsto> ParquetFile ''snappy'' (series df))\<rparr>)"
    unfolding to_parquet_def using assms(3,5) by (intro write_file_ok) (simp_all add: b2)
  show ?thesis
    using assms(1) w1 w2 by (simp add: coerce_and_write_def Let_def logging_def)
qed

lemma astype_columns_labels:
  "astype_columns conv dtype cs = Inr cs' \<Longrightarrow> map fst cs' = map fst cs"
  by (induction cs arbitrary: cs') (auto split: sum.splits)

lemma astype_labels:
  assumes "astype conv d df0 = Inr df"
  shows "set (map fst d) \<subseteq> set (map fst (series df))"
proof -
  from assms have e: "filter (\<lambda>k. k \<notin> set (map fst (series df0))) (map fst d) = []"
    by (auto simp: astype_def split: list.splits)
  from assms have "map fst (series df) = map fst (series df0)"
    by (auto simp: astype_def split: list.splits sum.splits dest: astype_columns_labels)
  moreover from e have "set (map fst d) \<subseteq> set (map fst (series df0))"
    by (auto simp: filter_empty_conv)
  ultimately show ?thesis by simp
qed

lemma dict_fields_keys: "map fst (dict_fields ob) = field_names ob"
  by (simp add: dict_fields_def field_names_def)

lemma get_sf_data_table:
  assumes tbl: "coerced_table a w ob = Some df"
      and d1: "is_dir s (output_path a @ [''csv''])" and d2: "is_dir s (output_path a @ [''pq''])"
      and n1: "\<not> is_dir s (csv_path a ob)" and n2: "\<not> is_dir s (pq_path a ob)"
  shows "fst (get_sf_data a w ob s) = Inr (index df)"
    and "files (snd (get_sf_data a w ob s)) =
           (files s)(csv_path a ob \<mapsto> CsvFile (map fst (series df)) (rows_of df),
                     pq_path a ob \<mapsto> ParquetFile ''snappy'' (series df))"
    and "map_option length (rows_fetched a w ob) = Some (index df)"
    and "set (field_names ob) \<subseteq> set (map fst (series df))"
proof -
  from tbl obtain rs df0 where rows: "rows_fetched a w ob = Some rs"
      and dr: "drop_label ''attributes'' (from_dict rs) = Inr df0"
      and ast: "astype (astype_cell w) (dict_fields ob) df0 = Inr df"
    by (auto simp: coerced_table_def split: option.splits sum.splits)
  have ne: "rs \<noteq> []"
  proof
    assume "rs = []"
    with dr show False by (simp add: drop_label_empty)
  qed
  have idx: "index df = length rs"
    using astype_index[OF ast] drop_label_index[OF dr] by (simp add: from_dict_def)
  let ?s = "logging DEBUG (Has_fields (obj_api_name ob) (field_names ob)) s"
  let ?s' = "?s\<lparr>api_calls := api_calls ?s @ [(exec_type a, query ob)]\<rparr>"
  have f: "fetch a w ob ?s = (Inr (Some df0), ?s')"
    using fetch_rows[OF rows ne, of ?s] dr by simp
  have cw: "coerce_and_write a w ob df0 ?s' =
     (Inr (index df),
      logging DEBUG (Dtypes df)
        ((logging DEBUG (Dict_fields (dict_fields ob)) ?s')
           \<lparr>files := (files ?s')(csv_path a ob \<mapsto> CsvFile (map fst (series df)) (rows_of df),
                               pq_path a ob \<mapsto> ParquetFile ''snappy'' (series df))\<rparr>))"
    using ast d1 d2 n1 n2 by (intro coerce_and_write_ok) simp_all
  have g: "get_sf_data a w ob s = coerce_and_write a w ob df0 ?s'"
    using f by (simp add: get_sf_data_def)
  show "fst (get_sf_data a w ob s) = Inr (index df)"
    by (simp add: g cw)
  show "files (snd (get_sf_data a w ob s)) =
           (files s)(csv_path a ob \<mapsto> CsvFile (map fst (series df)) (rows_of df),
                     pq_path a ob \<mapsto> ParquetFile ''snappy'' (series df))"
    unfolding g cw by (simp add: logging_def)
  show "map_option length (rows_fetched a w ob) = Some (index df)"
    by (simp add: rows idx)
  show "set (field_names ob) \<subseteq> set (map fst (series df))"
    using astype_labels[OF ast] by (simp only: dict_fields_keys)
qed

text \<open>
  Claim C6 (a coerced table is written twice under the API name of the object, and the
  task returns its number of rows). The output directories exist, as \<^verbatim>\<open>pre_steps\<close>
  leaves them. The task then returns the number of rows, which is the number of records
  fetched; the files afterwards are those of before and two more, \<^verbatim>\<open>csv/<name>.csv\<close> with
  the column labels as header and the rows of the table, and \<^verbatim>\<open>pq/<name>.parquet\<close>,
  snappy-compressed, with the columns of the same table; every declared field name
  (stripped) is among the column labels; each row of the CSV file has
  one cell per column (no index column), and cell \<open>j\<close> of row \<open>i\<close> is cell \<open>i\<close> of
  column \<open>j\<close>.
\<close>

theorem table_persisted_twice:
  assumes tbl: "coerced_table a w ob = Some df"
      and d1: "is_dir s (output_path a @ [''csv''])" and d2: "is_dir s (output_path a @ [''pq''])"
      and n1: "\<not> is_dir s (output_path a @ [''csv'', obj_api_name ob @ ''.csv''])"
      and n2: "\<not> is_dir s (output_path a @ [''pq'', obj_api_name ob @ ''.parquet''])"
  shows "fst (get_sf_data a w ob s) = Inr (length (rows_of df))
       \<and> files (snd (get_sf_data a w ob s)) =
           (files s)(output_path a @ [''csv'', obj_api_name ob @ ''.csv'']
                       \<mapsto> CsvFile (map fst (series df)) (rows_of df),
                     output_path a @ [''pq'', obj_api_name ob @ ''.parquet'']
                       \<mapsto> ParquetFile ''snappy'' (series df))
       \<and> set (field_names ob) \<subseteq> set (map fst (series df))
       \<and> (\<forall>row \<in> set (rows_of df). length row = length (series df))
       \<and> (\<forall>i < length (rows_of df). \<forall>j < length (series df).
             rows_of df ! i ! j = snd (series df ! j) ! i)
       \<and> map_option length (rows_fetched a w ob) = Some (length (rows_of df))"
proof -
  have n: "\<not> is_dir s (csv_path a ob)" "\<not> is_dir s (pq_path a ob)"
    using n1 n2 by (simp_all add: csv_path_def pq_path_def)
  note t = get_sf_data_table[OF tbl d1 d2 n]
  have r1: "fst (get_sf_data a w ob s) = Inr (length (rows_of df))"
    using t(1) by (simp add: length_rows_of)
  have r2: "files (snd (get_sf_data a w ob s)) =
           (files s)(output_path a @ [''csv'', obj_api_name ob @ ''.csv'']
                       \<mapsto> CsvFile (map fst (series df)) (rows_of df),
                     output_path a @ [''pq'', obj_api_name ob @ ''.parquet'']
                       \<mapsto> ParquetFile ''snappy'' (series df))"
    using t(2) by (simp add: csv_path_def pq_path_def)
  have r3: "\<forall>row \<in> set (rows_of df). length row = length (series df)"
    by (simp add: row_width)
  have r4: "\<forall>i < length (rows_of df). \<forall>j < length (series df).
             rows_of df ! i ! j = snd (series df ! j) ! i"
    by (simp add: length_rows_of rows_of_cell)
  have r5: "map_option length (rows_fetched a w ob) = Some (length (rows_of df))"
    using t(3) by (simp add: length_rows_of)
  from r1 r2 r3 r4 r5 t(4) show ?thesis by blast
qed

text \<open>
  Claim C9 (the empty-result branch returns 0 before any coercion or write, so an object
  without rows gets no file). For an object without rows, the files and directories after
  the task are those of before; and when the task takes the branch \<^verbatim>\<open>if not data\<close>, it
  returns 0, having logged the debug line and the line \<^verbatim>\<open>has no data\<close> and sent its one
  query.
\<close>

theorem empty_result_writes_nothing:
  assumes "zero_rows a w ob"
  shows "files (snd (get_sf_data a w ob s)) = files s
       \<and> dirs (snd (get_sf_data a w ob s)) = dirs s
       \<and> (empty_result a w ob \<longrightarrow>
            get_sf_data a w ob s =
              (Inr 0, s\<lparr>logged := logged s @ [(DEBUG, Has_fields (obj_api_name ob) (field_names ob)),
                                                (INFO, Has_no_data ob)],
                        api_calls := api_calls s @ [(exec_type a, query ob)]\<rparr>))"
proof -
  let ?s = "logging DEBUG (Has_fields (obj_api_name ob) (field_names ob)) s"
  have e: "get_sf_data a w ob s =
              (Inr 0, s\<lparr>logged := logged s @ [(DEBUG, Has_fields (obj_api_name ob) (field_names ob)),
                                                (INFO, Has_no_data ob)],
                        api_calls := api_calls s @ [(exec_type a, query ob)]\<rparr>)"
    if "empty_result a w ob"
    using that by (cases "exec_type a = BULK")
      (simp_all add: empty_result_def get_sf_data_def fetch_def Let_def logging_def)
  have "files (snd (get_sf_data a w ob s)) = files s \<and> dirs (snd (get_sf_data a w ob s)) = dirs s"
  proof (cases "empty_result a w ob")
    case True
    then show ?thesis by (simp add: e)
  next
    case False
    with assms have rows: "rows_fetched a w ob = Some []" by (simp add: zero_rows_def)
    with False have nb: "exec_type a \<noteq> BULK"
      by (auto simp: rows_fetched_def empty_result_def split: sum.splits)
    with rows obtain data where d: "query_all w (query ob) = Inr data"
      and r: "map_of data ''records'' = Some (JRecords [])"
      by (auto simp: rows_fetched_def split: sum.splits option.splits json.splits)
    from r have "data \<noteq> []" by auto
    with nb d r show ?thesis
      by (simp add: get_sf_data_def fetch_def Let_def logging_def drop_label_empty)
  qed
  with e show ?thesis by blast
qed

lemma strip_decomp:
  "\<exists>l r. s = l @ strip s @ r \<and> list_all isspace l \<and> list_all isspace r"
proof -
  let ?t = "dropWhile isspace s"
  have a: "s = takeWhile isspace s @ ?t" by simp
  have "rev (dropWhile isspace (rev ?t)) @ rev (takeWhile isspace (rev ?t))
      = rev (takeWhile isspace (rev ?t) @ dropWhile isspace (rev ?t))"
    by (simp only: rev_append)
  also have "\<dots> = rev (rev ?t)" by (simp only: takeWhile_dropWhile_id)
  finally have b: "?t = strip s @ rev (takeWhile isspace (rev ?t))"
    by (simp add: strip_def)
  have c: "list_all isspace (takeWhile isspace s)"
    by (simp add: list_all_iff) (meson set_takeWhileD)
  have d: "list_all isspace (rev (takeWhile isspace (rev ?t)))"
    by (simp add: list_all_iff) (meson set_takeWhileD)
  from a b have "s = takeWhile isspace s @ strip s @ rev (takeWhile isspace (rev ?t))"
    by simp
  with c d show ?thesis by blast
qed

lemma last_dropWhile_ne: "dropWhile P xs \<noteq> [] \<Longrightarrow> last (dropWhile P xs) = last xs"
proof -
  assume n: "dropWhile P xs \<noteq> []"
  have "last xs = last (takeWhile P xs @ dropWhile P xs)" by simp
  also have "\<dots> = last (dropWhile P xs)" using n by (rule last_appendR)
  finally show ?thesis by simp
qed

lemma strip_ends:
  "strip s = [] \<or> (\<not> isspace (hd (strip s)) \<and> \<not> isspace (last (strip s)))"
proof (cases "strip s = []")
  case True
  then show ?thesis by simp
next
  case False
  let ?t = "dropWhile isspace s"
  let ?u = "dropWhile isspace (rev ?t)"
  from False have u: "?u \<noteq> []" by (simp add: strip_def)
  have t: "?t \<noteq> []"
  proof
    assume e: "?t = []"
    have "?u = []" unfolding e by simp
    with u show False by (rule notE)
  qed
  have "last (strip s) = hd ?u" using u by (simp add: strip_def last_rev)
  moreover have "\<not> isspace (hd ?u)" using u by (rule hd_dropWhile)
  moreover have "hd (strip s) = last ?u" using u by (simp add: strip_def hd_rev)
  moreover have "last ?u = last (rev ?t)" using u by (rule last_dropWhile_ne)
  moreover have "last (rev ?t) = hd ?t" using t by (simp add: last_rev)
  moreover have "\<not> isspace (hd ?t)" using t by (rule hd_dropWhile)
  ultimately show ?thesis by simp
qed

lemma isspace_codes:
  "isspace c \<longleftrightarrow> of_char c \<in> {9..13} \<union> {28..32} \<union> {133, 160 :: nat}"
proof -
  have "{9..13} \<union> {28..32} \<union> {133, 160 :: nat}
      = set [9, 10, 11, 12, 13, 28, 29, 30, 31, 32, 133, 160]"
    by auto
  then show ?thesis by (simp only: isspace_def)
qed

subsection \<open>The query\<close>

text \<open>
  Claim C7, amended (the query is \<^verbatim>\<open>SELECT\<close>, the field API names joined by commas in
  the order of the list, \<^verbatim>\<open>FROM\<close> and the object API name). The script strips each
  field name first. The query is the specified string for the object with stripped
  names. That object has the API name and the fields of the given one, in the same
  order and with the same types; its name at each position is the name at that position
  of the given object without a run of whitespace in front and one behind, and has no
  whitespace at either end; whitespace is the code points 9 to 13, 28 to 32, 133 and 160. When no name has whitespace around it
  the query is the specified string itself.
\<close>

theorem query_stripped:
  "query ob = query_as_specified (stripped ob)
   \<and> obj_api_name (stripped ob) = obj_api_name ob
   \<and> length (fields_list (stripped ob)) = length (fields_list ob)
   \<and> (\<forall>i < length (fields_list ob). \<exists>l r.
         field_api_name (fields_list ob ! i)
           = l @ field_api_name (fields_list (stripped ob) ! i) @ r
         \<and> list_all isspace l \<and> list_all isspace r
         \<and> (field_api_name (fields_list (stripped ob) ! i) = []
              \<or> (\<not> isspace (hd (field_api_name (fields_list (stripped ob) ! i)))
                  \<and> \<not> isspace (last (field_api_name (fields_list (stripped ob) ! i)))))
         \<and> type (fields_list (stripped ob) ! i) = type (fields_list ob ! i))
   \<and> (\<forall>c. isspace c \<longleftrightarrow> of_char c \<in> {9..13} \<union> {28..32} \<union> {133, 160 :: nat})
   \<and> ((\<forall>f \<in> set (fields_list ob). strip (field_api_name f) = field_api_name f)
        \<longrightarrow> query ob = query_as_specified ob)"
proof -
  have a: "query ob = query_as_specified (stripped ob)"
    by (simp add: query_def query_as_specified_def stripped_def field_names_def comp_def)
  have b: "query ob = query_as_specified ob"
    if "\<forall>f \<in> set (fields_list ob). strip (field_api_name f) = field_api_name f"
  proof -
    from that have m: "map (\<lambda>f. strip (field_api_name f)) (fields_list ob) = map field_api_name (fields_list ob)"
      by (simp cong: map_cong)
    show ?thesis
      by (simp only: query_def query_as_specified_def field_names_def m)
  qed
  have c: "\<exists>l r.
         field_api_name (fields_list ob ! i)
           = l @ field_api_name (fields_list (stripped ob) ! i) @ r
         \<and> list_all isspace l \<and> list_all isspace r
         \<and> (field_api_name (fields_list (stripped ob) ! i) = []
              \<or> (\<not> isspace (hd (field_api_name (fields_list (stripped ob) ! i)))
                  \<and> \<not> isspace (last (field_api_name (fields_list (stripped ob) ! i)))))
         \<and> type (fields_list (stripped ob) ! i) = type (fields_list ob ! i)"
    if "i < length (fields_list ob)" for i
  proof -
    let ?g = "fields_list ob ! i"
    from that have f: "fields_list (stripped ob) ! i = ?g\<lparr>field_api_name := strip (field_api_name ?g)\<rparr>"
      by (simp add: stripped_def)
    from strip_decomp[of "field_api_name ?g"] obtain l r where
        "field_api_name ?g = l @ strip (field_api_name ?g) @ r" "list_all isspace l" "list_all isspace r"
      by blast
    with strip_ends[of "field_api_name ?g"] show ?thesis
      unfolding f by auto
  qed
  have d: "obj_api_name (stripped ob) = obj_api_name ob"
      "length (fields_list (stripped ob)) = length (fields_list ob)"
    by (simp_all add: stripped_def)
  from a b c d isspace_codes show ?thesis by blast
qed

lemma strip_Id: "strip ''Id'' = ''Id''" "strip ''Name'' = ''Name''" "strip ''Age'' = ''Age''" "strip '' Id'' = ''Id''"
  "strip (CHR 0xA0 # ''Id'') = ''Id''" "strip (''Name'' @ [CHR 0x85]) = ''Name''"
  by (simp_all add: strip_def isspace_def)

lemma ex_queries:
  "query ex_account = ''SELECT Id,Name FROM Account''"
  "query ex_contact = ''SELECT Id,Age FROM Contact''"
  "query ex_lead = ''SELECT Id,Age FROM Lead''"
  by (simp_all add: query_def field_names_def ex_account_def ex_contact_def ex_lead_def strip_Id)

text \<open>
  The account of the examples, whose names have no whitespace around them, and the
  same names with a no-break space in front and a next-line character behind.
\<close>

theorem query_stripped_witness:
  "query ex_account = ''SELECT Id,Name FROM Account''
   \<and> query ex_account = query_as_specified ex_account
   \<and> query ex_nbsp = ''SELECT Id,Name FROM Account''
   \<and> fields_list (stripped ex_nbsp)
       = [\<lparr>field_api_name = ''Id'', type = ''str''\<rparr>, \<lparr>field_api_name = ''Name'', type = ''str''\<rparr>]"
proof -
  have s: "fields_list (stripped ex_nbsp)
       = [\<lparr>field_api_name = ''Id'', type = ''str''\<rparr>, \<lparr>field_api_name = ''Name'', type = ''str''\<rparr>]"
    using strip_Id(5,6) by (simp add: stripped_def ex_nbsp_def)
  have n: "obj_api_name (stripped ex_nbsp) = ''Account''"
    by (simp add: stripped_def ex_nbsp_def)
  have "query ex_nbsp = ''SELECT Id,Name FROM Account''"
    using query_stripped[of ex_nbsp] by (simp add: query_as_specified_def s n)
  moreover have "query ex_account = ''SELECT Id,Name FROM Account''
      \<and> query ex_account = query_as_specified ex_account"
    using query_stripped[of ex_account]
    by (simp add: ex_account_def query_as_specified_def stripped_def strip_Id)
  ultimately show ?thesis using s by blast
qed

text \<open>
  Claim C7 as stated fails for a field name with a leading blank: the script sends the
  name without it.
\<close>

theorem query_not_as_specified:
  "query ex_padded = ''SELECT Id FROM Account''
   \<and> query_as_specified ex_padded = ''SELECT  Id FROM Account''
   \<and> query ex_padded \<noteq> query_as_specified ex_padded"
  by (simp add: query_def query_as_specified_def field_names_def ex_padded_def strip_Id)

subsection \<open>Objects without rows\<close>

text \<open>
  Claim C1 (an object whose fetch yields zero rows returns 0 as a success, in both modes).
  The bulk client answers the empty list, and the branch \<^verbatim>\<open>if not data\<close> returns 0. In the
  mode \<^verbatim>\<open>NORMAL\<close> the answer for an object without rows is the dict
  \<^verbatim>\<open>{'totalSize': 0, 'done': True, 'records': []}\<close>, which is not empty: the branch is
  not taken, the frame of no records has no column \<^verbatim>\<open>attributes\<close>, and \<^verbatim>\<open>drop\<close> raises
  \<^verbatim>\<open>KeyError\<close>. The task of the contacts fails there, where the same object in the mode
  \<^verbatim>\<open>BULK\<close> returns 0.
\<close>

theorem normal_zero_rows_raises:
  "rows_fetched (ex_args NORMAL) ex_world ex_contact = Some []
   \<and> fst (get_sf_data (ex_args NORMAL) ex_world ex_contact ex_state) = Inl (KeyError ''attributes'')
   \<and> fst (get_sf_data (ex_args BULK) ex_world ex_contact ex_state) = Inr 0"
  by (simp add: rows_fetched_def get_sf_data_def fetch_def ex_queries ex_world_def ex_args_def ex_rows_def
      Let_def logging_def drop_label_empty)

subsection \<open>\<^verbatim>\<open>pre_steps\<close>\<close>

lemma clean_one:
  assumes "mkdir D (rmtree D s) = (Inr u, s1)"
  shows "D \<in> dirs s1"
    and "files s1 p = (if D \<in> dirs s \<and> prefix D p then None else files s p)"
    and "p \<in> dirs s1 \<longleftrightarrow> (p \<in> dirs s \<and> \<not> (D \<in> dirs s \<and> prefix D p)) \<or> prefix p D"
    and "logged s1 = logged s"
  using assms
  by (auto simp: mkdir_def rmtree_def split: if_splits)

lemma clean_dirs_two:
  assumes "clean_dirs out [x, y] s = (Inr u, s2)"
  shows "\<exists>s1 u1 u2. mkdir (out @ [x]) (rmtree (out @ [x]) s) = (Inr u1, s1)
                 \<and> mkdir (out @ [y]) (rmtree (out @ [y]) s1) = (Inr u2, s2)"
  using assms by (auto split: prod.splits sum.splits)

lemma sibling_prefix: "prefix (out @ [x]) (out @ [y]) \<longleftrightarrow> x = y"
  by simp

lemma below_not_prefix: "strict_prefix (out @ [x]) p \<Longrightarrow> \<not> prefix p (out @ [y])"
proof
  assume a: "strict_prefix (out @ [x]) p" and b: "prefix p (out @ [y])"
  from a have "length (out @ [x]) < length p" by (rule prefix_length_less)
  moreover from b have "length p \<le> length (out @ [y])" by (rule prefix_length_le)
  ultimately show False by simp
qed

lemma cleaned:
  assumes c: "clean_dirs out [''csv'', ''pq''] s = (Inr u, s2)"
      and d: "d = ''csv'' \<or> d = ''pq''"
  shows "out @ [d] \<in> dirs s2"
    and "out @ [d] \<in> dirs s \<Longrightarrow> strict_prefix (out @ [d]) p \<Longrightarrow> p \<notin> dirs s2 \<and> files s2 p = None"
    and "logged s2 = logged s"
proof -
  from clean_dirs_two[OF c] obtain s1 u1 u2 where
      m1: "mkdir (out @ [''csv'']) (rmtree (out @ [''csv'']) s) = (Inr u1, s1)"
      and m2: "mkdir (out @ [''pq'']) (rmtree (out @ [''pq'']) s1) = (Inr u2, s2)"
    by blast
  note A = clean_one[OF m1] and B = clean_one[OF m2]
  show "out @ [d] \<in> dirs s2"
    using d A(1) B(1) B(3)[of "out @ [''csv'']"] by auto
  show "logged s2 = logged s" using A(4) B(4) by simp
  assume e: "out @ [d] \<in> dirs s" and sp: "strict_prefix (out @ [d]) p"
  from sp have pp: "prefix (out @ [d]) p" by (simp add: strict_prefix_def)
  have np: "\<not> prefix p (out @ [''csv''])" "\<not> prefix p (out @ [''pq''])"
    using below_not_prefix[OF sp] by blast+
  from d show "p \<notin> dirs s2 \<and> files s2 p = None"
  proof
    assume "d = ''csv''"
    with e pp np show ?thesis
      using A(2)[of p] A(3)[of p] B(2)[of p] B(3)[of p] by auto
  next
    assume dq: "d = ''pq''"
    with e have "out @ [''pq''] \<in> dirs s1" using A(3)[of "out @ [''pq'']"] by simp
    with dq pp np show ?thesis
      using B(2)[of p] B(3)[of p] by auto
  qed
qed

lemma pre_steps_exit:
  assumes "pre_steps a s = (Inl (SystemExit n), s')"
  shows "\<exists>s1 u. clean_dirs (output_path a) [''csv'', ''pq''] s = (Inr u, s1)
             \<and> \<not> (path_exists s1 (config a) \<and> path_exists s1 (json a))
             \<and> s' = logging ERROR (Files_missing (config a) (json a)) s1 \<and> n = 1"
  using assms unfolding pre_steps_def
  by (auto split: prod.splits sum.splits if_splits)

lemma path_exists_logging [simp]: "path_exists (logging l m s) p = path_exists s p"
  by (simp add: path_exists_def is_dir_def logging_def)

text \<open>
  Claim C10 (\<^verbatim>\<open>pre_steps\<close> removes and recreates both output directories before it
  looks for the two input files, so a run that ends on \<^verbatim>\<open>sys.exit(1)\<close> there has already
  destroyed the earlier output). When \<^verbatim>\<open>pre_steps\<close> ends on \<^verbatim>\<open>sys.exit(1)\<close>, an input
  file is missing, the exit status of the run is 1, each output directory exists, and
  nothing that was below an output directory of before is left.
\<close>

theorem pre_steps_cleans_before_check:
  assumes ex: "pre_steps a s = (Inl (SystemExit 1), s')"
      and d: "d = ''csv'' \<or> d = ''pq''"
      and old: "output_path a @ [d] \<in> dirs s"
      and below: "strict_prefix (output_path a @ [d]) p"
  shows "\<not> (path_exists s' (config a) \<and> path_exists s' (json a))
       \<and> exit_code a w s = 1
       \<and> output_path a @ [d] \<in> dirs s'
       \<and> p \<notin> dirs s' \<and> files s' p = None"
proof -
  from pre_steps_exit[OF ex] obtain s1 u where
      c: "clean_dirs (output_path a) [''csv'', ''pq''] s = (Inr u, s1)"
      and m: "\<not> (path_exists s1 (config a) \<and> path_exists s1 (json a))"
      and s': "s' = logging ERROR (Files_missing (config a) (json a)) s1"
    by blast
  have "exit_code a w s = 1" using ex by (simp add: exit_code_def run_def)
  moreover have "output_path a @ [d] \<in> dirs s'"
    using cleaned(1)[OF c d] by (simp add: s' logging_def)
  moreover have "p \<notin> dirs s' \<and> files s' p = None"
    using cleaned(2)[OF c d old below] by (simp add: s' logging_def)
  moreover have "\<not> (path_exists s' (config a) \<and> path_exists s' (json a))"
    using m by (simp add: s')
  ultimately show ?thesis by blast
qed

lemma get_sf_conn_cases:
  "get_sf_conn w u p t d s = (r, s') \<Longrightarrow>
     (Salesforce w u p t d = Inr () \<and> r = Inr () \<and> s' = s) \<or>
     ((\<exists>e. Salesforce w u p t d = Inl e) \<and> r = Inl (SystemExit 1))"
  by (auto simp: get_sf_conn_def split: sum.splits exn.splits)

lemma execute_fst:
  "fst (execute a w l th s) = Inr () \<longleftrightarrow> (\<exists>n. py_int w th = Inr n \<and> 0 < n)"
  by (auto simp: execute_def split: sum.splits)

subsection \<open>The exit status\<close>

lemma exit_missing:
  assumes "\<not> (path_exists (snd (clean_dirs (output_path a) [''csv'', ''pq''] s)) (config a)
           \<and> path_exists (snd (clean_dirs (output_path a) [''csv'', ''pq''] s)) (json a))"
  shows "exit_code a w s = 1"
proof (cases "clean_dirs (output_path a) [''csv'', ''pq''] s")
  case (Pair r s1)
  show ?thesis
  proof (cases r)
    case (Inl e)
    with Pair have "pre_steps a s = (Inl (Uncaught e), s1)" by (simp add: pre_steps_def)
    then show ?thesis by (simp add: exit_code_def run_def)
  next
    case (Inr u)
    with Pair assms have "fst (pre_steps a s) = Inl (SystemExit 1)"
      by (auto simp: pre_steps_def)
    then show ?thesis
      by (cases "pre_steps a s") (simp add: exit_code_def run_def)
  qed
qed

lemma exit_connect:
  assumes "pre_steps a s = (Inr (), s1)" and "init_logger a s1 = (Inr (), s2)"
      and "read_config w (config a) = Inr cfg" and "settings cfg = Inr (u, p, t, d, th)"
      and "Salesforce w u p t d = Inl e"
  shows "exit_code a w s = 1"
proof -
  have "fst (get_sf_conn w u p t d s2) = Inl (SystemExit 1)"
    using assms(5) by (simp add: get_sf_conn_def split: exn.splits)
  then show ?thesis
    using assms(1-4) by (cases "get_sf_conn w u p t d s2") (simp add: exit_code_def run_def)
qed

lemma exit_ok:
  assumes "pre_steps a s = (Inr (), s1)" and "init_logger a s1 = (Inr (), s2)"
      and "read_config w (config a) = Inr cfg" and "settings cfg = Inr (u, p, t, d, th)"
      and "Salesforce w u p t d = Inr ()" and "get_json_data w (json a) = Inr l"
      and "py_int w th = Inr n" and "0 < n"
  shows "exit_code a w s = 0"
proof -
  have c: "get_sf_conn w u p t d s2 = (Inr (), s2)"
    using assms(5) by (simp add: get_sf_conn_def)
  have "fst (execute a w l th s2) = Inr ()"
    using assms(7,8) by (simp add: execute_def)
  then show ?thesis
    using assms(1-4,6) c by (cases "execute a w l th s2") (simp add: exit_code_def run_def)
qed

lemma execute_Inr: "execute a w l th s = (Inr v, s') \<Longrightarrow> \<exists>n. py_int w th = Inr n \<and> 0 < n"
  by (auto simp: execute_def split: sum.splits if_splits)

lemma get_sf_conn_Inr: "get_sf_conn w u p t d s = (Inr v, s') \<Longrightarrow> Salesforce w u p t d = Inr ()"
  by (auto simp: get_sf_conn_def split: sum.splits exn.splits)

lemma get_sf_conn_Inl: "get_sf_conn w u p t d s = (Inl ab, s') \<Longrightarrow> ab = SystemExit 1"
  by (auto simp: get_sf_conn_def split: sum.splits exn.splits)

lemma pre_steps_Inl: "pre_steps a s = (Inl ab, s') \<Longrightarrow> exit_status ab = 1"
  by (auto simp: pre_steps_def split: prod.splits sum.splits if_splits)

lemma run_Inr: "fst (run a w s) = Inr v \<Longrightarrow> startup_ok a w s"
  unfolding run_def startup_ok_def
  by (auto split: prod.splits sum.splits dest!: get_sf_conn_Inr execute_Inr)

lemma run_Inl: "fst (run a w s) = Inl ab \<Longrightarrow> exit_status ab = 1"
  unfolding run_def
  by (auto split: prod.splits sum.splits dest!: get_sf_conn_Inl pre_steps_Inl)

lemma exit_zero_only: "exit_code a w s = 0 \<Longrightarrow> startup_ok a w s"
  by (cases "fst (run a w s)") (auto simp: exit_code_def dest: run_Inl run_Inr)

lemma exit_le_1: "exit_code a w s \<le> 1"
  by (cases "fst (run a w s)") (auto simp: exit_code_def dest: run_Inl)

text \<open>
  Claim C8, amended (exit status 1 when an input file is missing, on an authentication
  failure and on another connection error, 0 otherwise, whatever the objects do). The
  statement is about a schema that is a list of entries with the keys the script reads.
  The exit status is 1 when an input file is missing once the output directories are
  recreated, and when the connection raises, of whatever class. It is 0 when the
  start-up succeeds, whatever the fetches, coercions and writes of the objects do. It is
  0 only then: any other exception of the start-up (a directory that cannot be made, the
  log file, a missing setting, the schema, a thread count that is no positive integer)
  ends the run with status 1 as well.
\<close>

theorem exit_code_cases:
  "(\<not> (path_exists (snd (clean_dirs (output_path a) [''csv'', ''pq''] s)) (config a)
        \<and> path_exists (snd (clean_dirs (output_path a) [''csv'', ''pq''] s)) (json a))
      \<longrightarrow> exit_code a w s = 1)
   \<and> (pre_steps a s = (Inr (), s1) \<and> init_logger a s1 = (Inr (), s2)
        \<and> read_config w (config a) = Inr cfg \<and> settings cfg = Inr (u, p, t, d, th)
        \<and> Salesforce w u p t d = Inl e
      \<longrightarrow> exit_code a w s = 1)
   \<and> (pre_steps a s = (Inr (), s1) \<and> init_logger a s1 = (Inr (), s2)
        \<and> read_config w (config a) = Inr cfg \<and> settings cfg = Inr (u, p, t, d, th)
        \<and> Salesforce w u p t d = Inr () \<and> get_json_data w (json a) = Inr l
        \<and> py_int w th = Inr n \<and> 0 < n
      \<longrightarrow> exit_code a w s = 0)
   \<and> (exit_code a w s = 0 \<longrightarrow> startup_ok a w s)
   \<and> exit_code a w s \<le> 1"
  using exit_missing[of a s w] exit_connect[of a s s1 s2 w cfg u p t d th e]
    exit_ok[of a s s1 s2 w cfg u p t d th l n] exit_zero_only[of a w s] exit_le_1[of a w s]
  by blast

subsection \<open>The examples, evaluated\<close>

lemma ex_world_sel:
  "bulk_query_all ex_world = (\<lambda>name q. ex_rows q)"
  "query_all ex_world = (\<lambda>q.
        case ex_rows q of
          Inl e \<Rightarrow> Inl e
        | Inr rs \<Rightarrow> Inr [(''totalSize'', JInt (int (length rs))), (''done'', JBool True),
                          (''records'', JRecords rs)])"
  "astype_cell ex_world = ex_astype_cell"
  "Salesforce ex_world = (\<lambda>u p t d. if p = ''secret'' then Inr ()
                                else Inl (SalesforceAuthenticationFailed ''INVALID_LOGIN''))"
  "config_read ex_world = (\<lambda>p. Inr ex_config)"
  "json_load ex_world = (\<lambda>p. Inr [ex_account, ex_lead, ex_contact])"
  "py_int ex_world = (\<lambda>s. if s = ''2'' then Inr 2 else Inl (ValueError ''invalid literal for int()''))"
  "finish_time ex_world = (\<lambda>i. 3 - i)"
  by (simp_all add: ex_world_def)

lemma ex_args_sel:
  "exec_type (ex_args mode) = mode" "output_path (ex_args mode) = [''out'']"
  "config (ex_args mode) = [''cfg.ini'']" "json (ex_args mode) = [''objects.json'']"
  "log_path (ex_args mode) = [''logs'']"
  by (simp_all add: ex_args_def)

lemma ex_names:
  "obj_api_name ex_account = ''Account''" "obj_name ex_account = ''Account''"
  "obj_api_name ex_contact = ''Contact''" "obj_name ex_contact = ''Contact''"
  "obj_api_name ex_lead = ''Lead''" "obj_name ex_lead = ''Lead''"
  by (simp_all add: ex_account_def ex_contact_def ex_lead_def)

lemma ex_rows_eval:
  "ex_rows ''SELECT Id,Name FROM Account'' = Inr ex_account_rows"
  "ex_rows ''SELECT Id,Age FROM Contact'' = Inr []"
  "ex_rows ''SELECT Id,Age FROM Lead'' = Inr ex_lead_rows"
  by (simp_all add: ex_rows_def)

lemma ex_rows_ne: "ex_account_rows \<noteq> []" "ex_lead_rows \<noteq> []"
  by (simp_all add: ex_account_rows_def ex_lead_rows_def)

lemma ex_rows_fetched:
  "rows_fetched (ex_args mode) ex_world ex_account = Some ex_account_rows"
  "rows_fetched (ex_args mode) ex_world ex_contact = Some []"
  "rows_fetched (ex_args mode) ex_world ex_lead = Some ex_lead_rows"
  by (simp_all add: rows_fetched_def ex_queries ex_world_sel ex_args_sel ex_rows_eval)

lemma ex_dict_fields:
  "dict_fields ex_account = [(''Id'', ''str''), (''Name'', ''str'')]"
  "dict_fields ex_lead = [(''Id'', ''str''), (''Age'', ''int64'')]"
  by (simp_all add: dict_fields_def field_names_def ex_account_def ex_lead_def strip_Id)

lemma ex_from_dict:
  "drop_label ''attributes'' (from_dict ex_account_rows) =
     Inr \<lparr>index = 2,
          series = [(''Id'', [Some (SStr ''001''), Some (SStr ''002'')]),
                    (''Name'', [Some (SStr ''Acme''), Some (SStr ''Bolt'')])]\<rparr>"
  "drop_label ''attributes'' (from_dict ex_lead_rows) =
     Inr \<lparr>index = Suc 0,
          series = [(''Id'', [Some (SStr ''003'')]), (''Age'', [Some (SStr ''abc'')])]\<rparr>"
  by (simp_all add: drop_label_def from_dict_def first_seen_def ex_account_rows_def ex_lead_rows_def)

lemma ex_astype:
  "astype ex_astype_cell [(''Id'', ''str''), (''Name'', ''str'')]
     \<lparr>index = 2,
      series = [(''Id'', [Some (SStr ''001''), Some (SStr ''002'')]),
                (''Name'', [Some (SStr ''Acme''), Some (SStr ''Bolt'')])]\<rparr> = Inr ex_account_table"
  "astype ex_astype_cell [(''Id'', ''str''), (''Age'', ''int64'')]
     \<lparr>index = Suc 0,
      series = [(''Id'', [Some (SStr ''003'')]), (''Age'', [Some (SStr ''abc'')])]\<rparr>
     = Inl (ValueError ''invalid literal for int()'')"
  by (simp_all add: astype_def ex_astype_cell_def ex_account_table_def)

lemma ex_coerced: "coerced_table (ex_args mode) ex_world ex_account = Some ex_account_table"
  by (simp add: coerced_table_def ex_rows_fetched ex_from_dict ex_dict_fields ex_astype ex_world_sel)

lemma ex_rows_of: "rows_of ex_account_table =
   [[Some (SStr ''001''), Some (SStr ''Acme'')], [Some (SStr ''002''), Some (SStr ''Bolt'')]]"
  by (simp add: rows_of_def ex_account_table_def upt_rec)

lemma ex_is_dir:
  "is_dir ex_state [''out'', ''csv'']" "is_dir ex_state [''out'', ''pq'']"
  "\<not> is_dir ex_state [''out'', ''csv'', ''Account.csv'']"
  "\<not> is_dir ex_state [''out'', ''pq'', ''Account.parquet'']"
  by (simp_all add: is_dir_def ex_state_def)

text \<open>
  The two accounts in the mode \<^verbatim>\<open>BULK\<close>: the task returns 2 and leaves the two files.
\<close>

theorem table_persisted_twice_witness:
  "fst (get_sf_data (ex_args BULK) ex_world ex_account ex_state) = Inr 2
   \<and> files (snd (get_sf_data (ex_args BULK) ex_world ex_account ex_state)) [''out'', ''csv'', ''Account.csv'']
       = Some (CsvFile [''Id'', ''Name'']
                 [[Some (SStr ''001''), Some (SStr ''Acme'')], [Some (SStr ''002''), Some (SStr ''Bolt'')]])
   \<and> files (snd (get_sf_data (ex_args BULK) ex_world ex_account ex_state)) [''out'', ''pq'', ''Account.parquet'']
       = Some (ParquetFile ''snappy''
                 [(''Id'', [Some (SStr ''001''), Some (SStr ''002'')]),
                  (''Name'', [Some (SStr ''Acme''), Some (SStr ''Bolt'')])])"
proof -
  have "series ex_account_table =
      [(''Id'', [Some (SStr ''001''), Some (SStr ''002'')]),
       (''Name'', [Some (SStr ''Acme''), Some (SStr ''Bolt'')])]"
    by (simp add: ex_account_table_def)
  then show ?thesis
    using table_persisted_twice[of "ex_args BULK" ex_world ex_account ex_account_table ex_state]
    by (simp add: ex_coerced ex_is_dir ex_args_sel ex_names ex_rows_of)
qed

lemma ex_bulk_account:
  "fst (get_sf_data (ex_args BULK) ex_world ex_account ex_state) = Inr 2"
  using get_sf_data_table(1)[of "ex_args BULK" ex_world ex_account ex_account_table ex_state]
  by (simp add: ex_coerced ex_is_dir ex_args_sel ex_names csv_path_def pq_path_def)
     (simp add: ex_account_table_def)

lemma ex_bulk_contact:
  "fst (get_sf_data (ex_args BULK) ex_world ex_contact ex_state) = Inr 0"
  by (simp add: get_sf_data_def fetch_def Let_def logging_def ex_world_sel ex_args_sel ex_queries
      ex_rows_eval)

lemma ex_bulk_lead:
  "fst (get_sf_data (ex_args BULK) ex_world ex_lead ex_state) = Inl (ValueError ''invalid literal for int()'')"
  by (simp add: get_sf_data_def fetch_def Let_def logging_def ex_world_sel ex_args_sel ex_queries
      ex_rows_eval ex_rows_ne ex_from_dict coerce_and_write_def ex_dict_fields ex_astype)

lemma ex_as_completed:
  "as_completed ex_world (submit_all [ex_account, ex_lead, ex_contact])
     = [(2, ex_contact), (1, ex_lead), (0, ex_account)]"
  by (simp add: as_completed_def submit_all_def ex_world_sel upt_rec)

text \<open>
  Three objects, completing in the reverse of the order of submission: the lead, whose
  age does not convert, is between two tasks that succeed.
\<close>

theorem execute_isolates_failures_witness:
  "fst (execute (ex_args BULK) ex_world [ex_account, ex_lead, ex_contact] ''2'' ex_state) = Inr ()
   \<and> outcomes (snd (execute (ex_args BULK) ex_world [ex_account, ex_lead, ex_contact] ''2'' ex_state))
       = [(INFO, Has_rows ''Contact'' 0),
          (WARNING, Generated_exception ''Lead'' (ValueError ''invalid literal for int()'')),
          (INFO, Has_rows ''Account'' 2)]"
proof -
  have "py_int ex_world ''2'' = Inr 2" "(0::int) < 2" by (simp_all add: ex_world_sel)
  moreover have "outcomes ex_state = []" by (simp add: outcomes_def ex_state_def)
  ultimately show ?thesis
    using execute_isolates_failures[of ex_world "''2''" 2 "ex_args BULK"
        "[ex_account, ex_lead, ex_contact]" ex_state]
    by (simp add: ex_as_completed ex_bulk_account ex_bulk_contact ex_bulk_lead outcome_def ex_names)
qed

text \<open>
  A list that names the account twice sends the query of the account twice.
\<close>

theorem one_task_per_object_witness:
  "map snd (submit_all [ex_account, ex_contact, ex_account]) = [ex_account, ex_contact, ex_account]
   \<and> fst (execute (ex_args BULK) ex_world [ex_account, ex_contact, ex_account] ''2'' ex_state) = Inr ()
   \<and> mset (api_calls (snd (execute (ex_args BULK) ex_world [ex_account, ex_contact, ex_account] ''2'' ex_state)))
       = {#(BULK, ''SELECT Id,Name FROM Account''), (BULK, ''SELECT Id,Age FROM Contact''),
           (BULK, ''SELECT Id,Name FROM Account'')#}"
proof -
  have "py_int ex_world ''2'' = Inr 2" "(0::int) < 2" by (simp_all add: ex_world_sel)
  moreover have "api_calls ex_state = []" by (simp add: ex_state_def)
  ultimately show ?thesis
    using one_task_per_object[of ex_world "''2''" 2 "[ex_account, ex_contact, ex_account]"
        "ex_args BULK" ex_state]
    by (simp add: ex_queries ex_args_sel)
qed

text \<open>
  The lead whose age is \<^verbatim>\<open>abc\<close>, declared \<^verbatim>\<open>int64\<close>.
\<close>

theorem coercion_failure_writes_nothing_witness:
  "(\<exists>e'. fst (get_sf_data (ex_args BULK) ex_world ex_lead ex_state) = Inl e')
   \<and> files (snd (get_sf_data (ex_args BULK) ex_world ex_lead ex_state)) = files ex_state
   \<and> dirs (snd (get_sf_data (ex_args BULK) ex_world ex_lead ex_state)) = dirs ex_state"
proof -
  let ?r = "[(''attributes'', SStr ''Lead''), (''Id'', SStr ''003''), (''Age'', SStr ''abc'')]"
  have "rows_fetched (ex_args BULK) ex_world ex_lead = Some ex_lead_rows"
    by (rule ex_rows_fetched)
  moreover have "?r \<in> set ex_lead_rows" by (simp add: ex_lead_rows_def)
  moreover have "map_of ?r ''Age'' = Some (SStr ''abc'')" by simp
  moreover have "map_of (rev (dict_fields ex_lead)) ''Age'' = Some ''int64''"
    by (simp add: ex_dict_fields)
  moreover have "astype_cell ex_world ''int64'' (Some (SStr ''abc'')) = Inl (ValueError ''invalid literal for int()'')"
    by (simp add: ex_world_sel ex_astype_cell_def)
  ultimately show ?thesis
    by (rule coercion_failure_writes_nothing)
qed

lemma ex_zero_rows:
  "empty_result (ex_args BULK) ex_world ex_contact"
  "zero_rows (ex_args BULK) ex_world ex_contact"
  "zero_rows (ex_args NORMAL) ex_world ex_contact"
  by (simp_all add: zero_rows_def empty_result_def ex_rows_fetched ex_args_sel ex_world_sel
      ex_queries ex_rows_eval)

text \<open>
  The contacts, of which there are none, in both modes.
\<close>

theorem empty_result_writes_nothing_witness:
  "get_sf_data (ex_args BULK) ex_world ex_contact ex_state =
     (Inr 0, ex_state\<lparr>logged := [(DEBUG, Has_fields ''Contact'' [''Id'', ''Age'']), (INFO, Has_no_data ex_contact)],
                      api_calls := [(BULK, ''SELECT Id,Age FROM Contact'')]\<rparr>)
   \<and> files (snd (get_sf_data (ex_args BULK) ex_world ex_contact ex_state)) = files ex_state
   \<and> files (snd (get_sf_data (ex_args NORMAL) ex_world ex_contact ex_state)) = files ex_state"
proof -
  have "field_names ex_contact = [''Id'', ''Age'']"
    by (simp add: field_names_def ex_contact_def strip_Id)
  moreover have "logged ex_state = []" "api_calls ex_state = []" by (simp_all add: ex_state_def)
  ultimately show ?thesis
    using empty_result_writes_nothing[OF ex_zero_rows(2), of ex_state]
      empty_result_writes_nothing[OF ex_zero_rows(3), of ex_state]
    by (simp add: ex_zero_rows(1) ex_names ex_args_sel ex_queries)
qed

lemma ex_clean_dirs:
  "clean_dirs [''out''] [''csv'', ''pq''] ex_state = (Inr (), ex_cleaned)"
  by (auto simp: mkdir_def rmtree_def ex_state_def ex_cleaned_def fun_eq_iff)

lemma ex_clean_dirs_no_config:
  "clean_dirs [''out''] [''csv'', ''pq''] ex_state_no_config =
     (Inr (), ex_cleaned\<lparr>files := [[''objects.json''] \<mapsto> OtherFile]\<rparr>)"
  by (auto simp: mkdir_def rmtree_def ex_state_def ex_state_no_config_def ex_cleaned_def fun_eq_iff)

lemma ex_pre_steps_no_config:
  "pre_steps (ex_args mode) ex_state_no_config =
     (Inl (SystemExit 1),
      logging ERROR (Files_missing [''cfg.ini''] [''objects.json''])
        (ex_cleaned\<lparr>files := [[''objects.json''] \<mapsto> OtherFile]\<rparr>))"
  unfolding pre_steps_def ex_args_sel ex_clean_dirs_no_config
  by (simp add: path_exists_def is_dir_def ex_cleaned_def)

lemma ex_pre_steps:
  "pre_steps (ex_args mode) ex_state =
     (Inr (), ex_cleaned\<lparr>dirs := {[], [''out''], [''out'', ''csv''], [''out'', ''pq''], [''logs'']}\<rparr>)"
proof -
  have "dirs ex_cleaned \<union> set (prefixes [''logs''])
      = {[], [''out''], [''out'', ''csv''], [''out'', ''pq''], [''logs'']}"
    by (auto simp: ex_cleaned_def)
  then have "mkdir [''logs''] ex_cleaned =
      (Inr (), ex_cleaned\<lparr>dirs := {[], [''out''], [''out'', ''csv''], [''out'', ''pq''], [''logs'']}\<rparr>)"
    by (simp add: mkdir_def) (simp add: ex_cleaned_def)
  then show ?thesis
    unfolding pre_steps_def ex_args_sel ex_clean_dirs
    by (simp add: path_exists_def is_dir_def) (simp add: ex_cleaned_def)
qed

lemma ex_init_logger:
  "init_logger (ex_args mode)
     (ex_cleaned\<lparr>dirs := {[], [''out''], [''out'', ''csv''], [''out'', ''pq''], [''logs'']}\<rparr>)
   = (Inr (), ex_started)"
  by (auto simp: init_logger_def Let_def ex_args_sel write_file_def is_dir_def ex_cleaned_def
      ex_started_def ex_state_def fun_eq_iff)

lemma ex_settings: "settings ex_config = Inr (''user'', ''secret'', ''tok'', ''login'', ''2'')"
  by (simp add: settings_def getitem_def ex_config_def)

text \<open>
  A run without its config file: the CSV file of the earlier run is gone when the run
  exits with status 1.
\<close>

theorem pre_steps_cleans_before_check_witness:
  "fst (pre_steps (ex_args BULK) ex_state_no_config) = Inl (SystemExit 1)
   \<and> files ex_state_no_config [''out'', ''csv'', ''Old.csv''] = Some (CsvFile [''Id''] [])
   \<and> files (snd (pre_steps (ex_args BULK) ex_state_no_config)) [''out'', ''csv'', ''Old.csv''] = None
   \<and> [''out'', ''csv''] \<in> dirs (snd (pre_steps (ex_args BULK) ex_state_no_config))
   \<and> exit_code (ex_args BULK) ex_world ex_state_no_config = 1"
proof -
  have p: "pre_steps (ex_args BULK) ex_state_no_config =
      (Inl (SystemExit 1), snd (pre_steps (ex_args BULK) ex_state_no_config))"
    by (simp add: ex_pre_steps_no_config)
  have d: "''csv'' = ''csv'' \<or> ''csv'' = ''pq''" by simp
  have o: "output_path (ex_args BULK) @ [''csv''] \<in> dirs ex_state_no_config"
    by (simp add: ex_args_sel ex_state_no_config_def ex_state_def)
  have b: "strict_prefix (output_path (ex_args BULK) @ [''csv'']) [''out'', ''csv'', ''Old.csv'']"
    by (simp add: ex_args_sel strict_prefix_def)
  have f: "files ex_state_no_config [''out'', ''csv'', ''Old.csv''] = Some (CsvFile [''Id''] [])"
    by (simp add: ex_state_no_config_def ex_state_def)
  have q: "fst (pre_steps (ex_args BULK) ex_state_no_config) = Inl (SystemExit 1)"
    by (simp add: ex_pre_steps_no_config)
  from pre_steps_cleans_before_check[OF p d o b, of ex_world] q f show ?thesis
    by (simp add: ex_args_sel)
qed

text \<open>
  Three runs: one whose start-up succeeds and in which the task of the lead fails, one
  without its config file, and one whose credentials are rejected.
\<close>

theorem exit_code_cases_witness:
  "exit_code (ex_args BULK) ex_world ex_state = 0
   \<and> exit_code (ex_args BULK) ex_world ex_state_no_config = 1
   \<and> exit_code (ex_args BULK) ex_world_wrong_password ex_state = 1"
proof -
  let ?s1 = "ex_cleaned\<lparr>dirs := {[], [''out''], [''out'', ''csv''], [''out'', ''pq''], [''logs'']}\<rparr>"
  note t1 = exit_code_cases[where a = "ex_args BULK" and s = ex_state and w = ex_world
      and ?s1.0 = ?s1 and ?s2.0 = ex_started and cfg = ex_config and u = "''user''"
      and p = "''secret''" and t = "''tok''" and d = "''login''" and th = "''2''"
      and l = "[ex_account, ex_lead, ex_contact]" and n = 2]
  note t2 = exit_code_cases[where a = "ex_args BULK" and s = ex_state_no_config and w = ex_world]
  note t3 = exit_code_cases[where a = "ex_args BULK" and s = ex_state and w = ex_world_wrong_password
      and ?s1.0 = ?s1 and ?s2.0 = ex_started and cfg = ex_config and u = "''user''"
      and p = "''secret''" and t = "''tok''" and d = "''login''" and th = "''2''"
      and e = "SalesforceAuthenticationFailed ''INVALID_LOGIN''"]
  have r: "read_config ex_world (config (ex_args BULK)) = Inr ex_config"
      "read_config ex_world_wrong_password (config (ex_args BULK)) = Inr ex_config"
    by (simp_all add: read_config_def ex_world_sel ex_world_wrong_password_def)
  have j: "get_json_data ex_world (json (ex_args BULK)) = Inr [ex_account, ex_lead, ex_contact]"
    by (simp add: get_json_data_def ex_world_sel)
  have c: "Salesforce ex_world ''user'' ''secret'' ''tok'' ''login'' = Inr ()"
      "Salesforce ex_world_wrong_password ''user'' ''secret'' ''tok'' ''login''
         = Inl (SalesforceAuthenticationFailed ''INVALID_LOGIN'')"
    by (simp_all add: ex_world_sel ex_world_wrong_password_def)
  have i: "py_int ex_world ''2'' = Inr 2" by (simp add: ex_world_sel)
  have m: "\<not> (path_exists (snd (clean_dirs (output_path (ex_args BULK)) [''csv'', ''pq''] ex_state_no_config))
                 (config (ex_args BULK))
             \<and> path_exists (snd (clean_dirs (output_path (ex_args BULK)) [''csv'', ''pq''] ex_state_no_config))
                 (json (ex_args BULK)))"
    unfolding ex_args_sel ex_clean_dirs_no_config
    by (simp add: path_exists_def is_dir_def ex_cleaned_def)
  have a: "exit_code (ex_args BULK) ex_world ex_state = 0"
    using t1 ex_pre_steps[of BULK] ex_init_logger[of BULK] ex_settings r(1) j c(1) i by simp
  have b: "exit_code (ex_args BULK) ex_world ex_state_no_config = 1"
    using t2 m by blast
  have c': "exit_code (ex_args BULK) ex_world_wrong_password ex_state = 1"
    using t3 ex_pre_steps[of BULK] ex_init_logger[of BULK] ex_settings r(2) c(2) by simp
  from a b c' show ?thesis by blast
qed

text \<open>
  Claim C8 as stated fails: both input files exist and every connection succeeds, but
  the config file has no section \<^verbatim>\<open>proc\<close>; \<^verbatim>\<open>config['proc']\<close> raises \<^verbatim>\<open>KeyError\<close>,
  nobody catches it, and the exit status is 1.
\<close>

theorem exit_one_without_listed_cause:
  "path_exists (snd (clean_dirs [''out''] [''csv'', ''pq''] ex_state)) [''cfg.ini'']
   \<and> path_exists (snd (clean_dirs [''out''] [''csv'', ''pq''] ex_state)) [''objects.json'']
   \<and> Salesforce ex_world_no_threads = (\<lambda>u p t d. Inr ())
   \<and> exit_code (ex_args BULK) ex_world_no_threads ex_state = 1"
proof -
  have s: "settings (\<lambda>section key. if section = ''proc'' then None else ex_config section key)
          = Inl (KeyError ''threads'')"
    by (simp add: settings_def getitem_def ex_config_def)
  have r: "read_config ex_world_no_threads (config (ex_args BULK))
      = Inr (\<lambda>section key. if section = ''proc'' then None else ex_config section key)"
    by (simp add: read_config_def ex_world_no_threads_def)
  have e: "exit_code (ex_args BULK) ex_world_no_threads ex_state = 1"
    by (simp add: exit_code_def run_def ex_pre_steps ex_init_logger r s)
  have p: "path_exists (snd (clean_dirs [''out''] [''csv'', ''pq''] ex_state)) [''cfg.ini'']"
      "path_exists (snd (clean_dirs [''out''] [''csv'', ''pq''] ex_state)) [''objects.json'']"
    unfolding ex_clean_dirs by (simp_all add: path_exists_def is_dir_def ex_cleaned_def)
  have c: "Salesforce ex_world_no_threads = (\<lambda>u p t d. Inr ())"
    by (simp add: ex_world_no_threads_def)
  from p c e show ?thesis by blast
qed

end
